theory Spec2Isabelle
  imports Main "HOL-Library.Sublist" "HOL-Library.Word" "HOL-Library.AList"
begin

section \<open>Strings\<close>

text \<open>
  A JavaScript string is a sequence of 16-bit code units. String literals of the source
  are written with \<open>js\<close>, which maps every (ASCII) character to its code unit.
\<close>

type_synonym jschar = "16 word"
type_synonym jsstring = "jschar list"

definition js :: "string \<Rightarrow> jsstring" where
  "js s = map of_char s"

text \<open>
  The class \<open>\s\<close> of a regular expression, which is also the set of characters removed by
  \<open>String.prototype.trim\<close>: WhiteSpace and LineTerminator of ECMAScript.
\<close>

definition isSpace :: "jschar \<Rightarrow> bool" where
  "isSpace c \<longleftrightarrow>
     c = 0x09 \<or> c = 0x0A \<or> c = 0x0B \<or> c = 0x0C \<or> c = 0x0D \<or> c = 0x20 \<or> c = 0xA0 \<or>
     c = 0x1680 \<or> (0x2000 \<le> c \<and> c \<le> 0x200A) \<or> c = 0x2028 \<or> c = 0x2029 \<or>
     c = 0x202F \<or> c = 0x205F \<or> c = 0x3000 \<or> c = 0xFEFF"

definition trim :: "jsstring \<Rightarrow> jsstring" where
  "trim s = rev (dropWhile isSpace (rev (dropWhile isSpace s)))"

section \<open>Regular expressions\<close>

text \<open>
  The fragment of regular expressions that \<open>evaluateInnovation\<close> uses: literal text, a
  character class made of \<open>\s\<close> and \<open>\S\<close>, concatenation, the greedy quantifiers \<open>?\<close> and \<open>*\<close>, and a capture
  group. \<open>run r (s, c)\<close> lists, in the backtracking order of the engine, every way in which
  \<open>r\<close> matches a prefix of \<open>s\<close>: each result is the input that is left and the text captured
  by group 1. A greedy quantifier tries one more iteration before it tries to stop, and an
  iteration that consumes nothing is rejected.
\<close>

datatype atom = WhiteSpace | NonWhiteSpace

fun atomMatches :: "atom \<Rightarrow> jschar \<Rightarrow> bool" where
  "atomMatches WhiteSpace c = isSpace c"
| "atomMatches NonWhiteSpace c = (\<not> isSpace c)"

datatype regex =
    Lit jsstring
  | Cls "atom list"
  | Cat regex regex
  | Opt regex
  | Star regex
  | Group regex

type_synonym mstate = "jsstring \<times> jsstring option"

fun run :: "regex \<Rightarrow> mstate \<Rightarrow> mstate list" where
  "run (Lit l) (s, c) = (if prefix l s then [(drop (length l) s, c)] else [])"
| "run (Cls as) (s, c) =
     (case s of
        [] \<Rightarrow> []
      | x # r \<Rightarrow> if list_ex (\<lambda>a. atomMatches a x) as then [(r, c)] else [])"
| "run (Cat a b) m = concat (map (run b) (run a m))"
| "run (Opt a) m = run a m @ [m]"
| "run (Star a) (s, c) =
     concat (map (\<lambda>(r, c'). if length r < length s then run (Star a) (r, c') else [])
                 (run a (s, c))) @ [(s, c)]"
| "run (Group a) (s, c) =
     map (\<lambda>(r, _). (r, Some (take (length s - length r) s))) (run a (s, c))"

text \<open>
  \<open>String.prototype.match\<close> with a regular expression without the \<open>g\<close> flag: the match
  that the engine finds first at the leftmost position where there is one. The result is
  the matched text (element 0 of the match array) and the capture of group 1 (element 1).
\<close>

fun search :: "regex \<Rightarrow> jsstring \<Rightarrow> (jsstring \<times> jsstring option) option" where
  "search re [] =
     (case run re ([], None) of
        (r, c) # _ \<Rightarrow> Some ([], c)
      | [] \<Rightarrow> None)"
| "search re (x # t) =
     (case run re (x # t, None) of
        (r, c) # _ \<Rightarrow> Some (take (length (x # t) - length r) (x # t), c)
      | [] \<Rightarrow> search re t)"

abbreviation space :: regex where
  \<comment> \<open>\<open>\s\<close>\<close>
  "space \<equiv> Cls [WhiteSpace]"

abbreviation anyChar :: regex where
  \<comment> \<open>\<open>[\s\S]\<close>\<close>
  "anyChar \<equiv> Cls [WhiteSpace, NonWhiteSpace]"

definition objBody :: regex where
  \<comment> \<open>\<open>\{[\s\S]*\}\<close>\<close>
  "objBody = Cat (Lit (js ''{'')) (Cat (Star anyChar) (Lit (js ''}'')))"

definition fencedRe :: regex where
  \<comment> \<open>\<open>/```(?:json)?\s*(\{[\s\S]*\})\s*```/\<close>\<close>
  "fencedRe =
     Cat (Lit (js ''```''))
    (Cat (Opt (Lit (js ''json'')))
    (Cat (Star space)
    (Cat (Group objBody)
    (Cat (Star space)
         (Lit (js ''```''))))))"

definition objRe :: regex where
  \<comment> \<open>\<open>/\{[\s\S]*\}/\<close>\<close>
  "objRe = objBody"

text \<open>
  Lines 202 to 213 of the evaluator: the text handed to \<open>JSON.parse\<close>. An element of the
  match array whose group did not take part is \<open>undefined\<close>, which \<open>JSON.parse\<close> reads as
  the text \<open>undefined\<close>.
\<close>

definition extractJson :: "jsstring \<Rightarrow> jsstring" where
  "extractJson content =
     (case search fencedRe content of
        Some (_, g) \<Rightarrow> (case g of Some t \<Rightarrow> t | None \<Rightarrow> js ''undefined'')
      | None \<Rightarrow>
          (case search objRe content of
             Some (m, _) \<Rightarrow> m
           | None \<Rightarrow> content))"


section \<open>JSON\<close>

text \<open>
  The values that \<open>JSON.parse\<close> produces. An object is the list of its properties in the
  order of their first insertion; a number is kept as its literal (its reading as a double
  is not modelled).
\<close>

datatype json =
    JNull
  | JBool bool
  | JNum jsstring
  | JStr jsstring
  | JArr "json list"
  | JObj "(jsstring \<times> json) list"

definition isJsonSpace :: "jschar \<Rightarrow> bool" where
  "isJsonSpace c \<longleftrightarrow> c = 0x09 \<or> c = 0x0A \<or> c = 0x0D \<or> c = 0x20"

definition skipWs :: "jsstring \<Rightarrow> jsstring" where
  "skipWs s = dropWhile isJsonSpace s"

definition isDigit :: "jschar \<Rightarrow> bool" where
  "isDigit c \<longleftrightarrow> 0x30 \<le> c \<and> c \<le> 0x39"

definition hexValue :: "jschar \<Rightarrow> jschar option" where
  "hexValue c =
     (if 0x30 \<le> c \<and> c \<le> 0x39 then Some (c - 0x30)
      else if 0x41 \<le> c \<and> c \<le> 0x46 then Some (c - 0x41 + 10)
      else if 0x61 \<le> c \<and> c \<le> 0x66 then Some (c - 0x61 + 10)
      else None)"

definition unescape :: "jschar \<Rightarrow> jschar option" where
  \<comment> \<open>the character after a backslash: \<open>" \ / b f n r t\<close>\<close>
  "unescape e =
     (if e = 0x22 then Some 0x22 else if e = 0x5C then Some 0x5C
      else if e = 0x2F then Some 0x2F else if e = 0x62 then Some 0x08
      else if e = 0x66 then Some 0x0C else if e = 0x6E then Some 0x0A
      else if e = 0x72 then Some 0x0D else if e = 0x74 then Some 0x09
      else None)"

text \<open>The characters of a string literal after its opening quote, and the input left.\<close>

fun parse_chars :: "jsstring \<Rightarrow> (jsstring \<times> jsstring) option" where
  "parse_chars [] = None"
| "parse_chars (c # s) =
     (if c = 0x22 then Some ([], s)
      else if c = 0x5C then
        (case s of
           [] \<Rightarrow> None
         | e # s' \<Rightarrow>
             if e = 0x75 then
               (case s' of
                  h1 # h2 # h3 # h4 # s'' \<Rightarrow>
                    (case (hexValue h1, hexValue h2, hexValue h3, hexValue h4) of
                       (Some a, Some b, Some c', Some d) \<Rightarrow>
                         map_option (\<lambda>(str, r). ((a * 0x1000 + b * 0x100 + c' * 0x10 + d) # str, r))
                                    (parse_chars s'')
                     | _ \<Rightarrow> None)
                | _ \<Rightarrow> None)
             else
               (case unescape e of
                  None \<Rightarrow> None
                | Some ch \<Rightarrow> map_option (\<lambda>(str, r). (ch # str, r)) (parse_chars s')))
      else if c < 0x20 then None
      else map_option (\<lambda>(str, r). (c # str, r)) (parse_chars s))"

definition parse_frac :: "jsstring \<Rightarrow> (jsstring \<times> jsstring) option" where
  "parse_frac s =
     (case s of
        [] \<Rightarrow> Some ([], s)
      | c # r \<Rightarrow>
          if c = 0x2E
          then (if takeWhile isDigit r = [] then None
                else Some (c # takeWhile isDigit r, dropWhile isDigit r))
          else Some ([], s))"

definition parse_exp :: "jsstring \<Rightarrow> (jsstring \<times> jsstring) option" where
  "parse_exp s =
     (case s of
        [] \<Rightarrow> Some ([], s)
      | c # r \<Rightarrow>
          if c = 0x65 \<or> c = 0x45
          then (let (sg, r') = (case r of
                                  [] \<Rightarrow> ([], r)
                                | x # r2 \<Rightarrow> if x = 0x2B \<or> x = 0x2D then ([x], r2) else ([], r))
                in if takeWhile isDigit r' = [] then None
                   else Some (c # sg @ takeWhile isDigit r', dropWhile isDigit r'))
          else Some ([], s))"

definition parse_number :: "jsstring \<Rightarrow> (jsstring \<times> jsstring) option" where
  "parse_number s =
     (let (sg, s1) = (case s of
                        [] \<Rightarrow> ([], s)
                      | c # r \<Rightarrow> if c = 0x2D then ([c], r) else ([], s))
      in case s1 of
           [] \<Rightarrow> None
         | d # r \<Rightarrow>
             if \<not> isDigit d then None
             else
               (let (ip, s2) = (if d = 0x30 then ([d], r)
                                else (d # takeWhile isDigit r, dropWhile isDigit r))
                in case parse_frac s2 of
                     None \<Rightarrow> None
                   | Some (fp, s3) \<Rightarrow>
                       (case parse_exp s3 of
                          None \<Rightarrow> None
                        | Some (ep, s4) \<Rightarrow> Some (sg @ ip @ fp @ ep, s4))))"

text \<open>
  A value, the elements of an array after the first \<open>[\<close> and the members of an object
  after the first \<open>{\<close>. The first argument bounds the number of nested calls; every call
  but the one from \<open>parse_elements\<close> to \<open>parse_value\<close> happens after a character has been
  consumed, so one more than the length of the input is enough. A repeated key keeps its
  first position and takes the last value.
\<close>

fun parse_value :: "nat \<Rightarrow> jsstring \<Rightarrow> (json \<times> jsstring) option"
  and parse_elements :: "nat \<Rightarrow> json list \<Rightarrow> jsstring \<Rightarrow> (json \<times> jsstring) option"
  and parse_members :: "nat \<Rightarrow> (jsstring \<times> json) list \<Rightarrow> jsstring \<Rightarrow> (json \<times> jsstring) option"
where
  "parse_value 0 s = None"
| "parse_value (Suc n) s =
     (case s of
        [] \<Rightarrow> None
      | c # r \<Rightarrow>
          if c = 0x7B then
            (case skipWs r of
               [] \<Rightarrow> None
             | d # r' \<Rightarrow> if d = 0x7D then Some (JObj [], r') else parse_members n [] (d # r'))
          else if c = 0x5B then
            (case skipWs r of
               [] \<Rightarrow> None
             | d # r' \<Rightarrow> if d = 0x5D then Some (JArr [], r') else parse_elements n [] (d # r'))
          else if c = 0x22 then map_option (\<lambda>(str, r'). (JStr str, r')) (parse_chars r)
          else if prefix (js ''true'') s then Some (JBool True, drop 4 s)
          else if prefix (js ''false'') s then Some (JBool False, drop 5 s)
          else if prefix (js ''null'') s then Some (JNull, drop 4 s)
          else map_option (\<lambda>(l, r'). (JNum l, r')) (parse_number s))"
| "parse_elements 0 acc s = None"
| "parse_elements (Suc n) acc s =
     (case parse_value (Suc n) s of
        None \<Rightarrow> None
      | Some (v, r) \<Rightarrow>
          (case skipWs r of
             [] \<Rightarrow> None
           | d # r' \<Rightarrow>
               if d = 0x2C then parse_elements n (acc @ [v]) (skipWs r')
               else if d = 0x5D then Some (JArr (acc @ [v]), r')
               else None))"
| "parse_members 0 acc s = None"
| "parse_members (Suc n) acc s =
     (case s of
        [] \<Rightarrow> None
      | q # r \<Rightarrow>
          if q \<noteq> 0x22 then None
          else
            (case parse_chars r of
               None \<Rightarrow> None
             | Some (k, r1) \<Rightarrow>
                 (case skipWs r1 of
                    [] \<Rightarrow> None
                  | col # r2 \<Rightarrow>
                      if col \<noteq> 0x3A then None
                      else
                        (case parse_value (Suc n) (skipWs r2) of
                           None \<Rightarrow> None
                         | Some (v, r3) \<Rightarrow>
                             (case skipWs r3 of
                                [] \<Rightarrow> None
                              | d # r4 \<Rightarrow>
                                  if d = 0x2C
                                  then parse_members n (AList.update k v acc) (skipWs r4)
                                  else if d = 0x7D
                                  then Some (JObj (AList.update k v acc), r4)
                                  else None)))))"


section \<open>Errors and the operations of the language\<close>

text \<open>
  What the program can throw. The message of an error that the program creates, and of a
  rejection of the network layer, is part of the value; the wording of an error that the
  engine raises itself is left to the engine, a function from the error to its message.
\<close>

datatype thrown =
    Error jsstring
  | Rejection jsstring
  | SyntaxError jsstring
  | TypeErrorNullProperty jsstring
  | TypeErrorNotFunction jsstring

type_synonym engine = "thrown \<Rightarrow> jsstring"

fun message :: "engine \<Rightarrow> thrown \<Rightarrow> jsstring" where
  "message w (Error m) = m"
| "message w (Rejection m) = m"
| "message w e = w e"

definition JSON_parse :: "jsstring \<Rightarrow> thrown + json" where
  "JSON_parse text =
     (case parse_value (Suc (length text)) (skipWs text) of
        None \<Rightarrow> Inl (SyntaxError text)
      | Some (v, r) \<Rightarrow> if skipWs r = [] then Inr v else Inl (SyntaxError text))"

definition isZeroLiteral :: "jsstring \<Rightarrow> bool" where
  \<comment> \<open>no digit of the mantissa is other than 0\<close>
  "isZeroLiteral l =
     list_all (\<lambda>c. \<not> (0x31 \<le> c \<and> c \<le> 0x39)) (takeWhile (\<lambda>c. c \<noteq> 0x65 \<and> c \<noteq> 0x45) l)"

fun truthy :: "json \<Rightarrow> bool" where
  "truthy JNull = False"
| "truthy (JBool b) = b"
| "truthy (JNum l) = (\<not> isZeroLiteral l)"
| "truthy (JStr s) = (s \<noteq> [])"
| "truthy (JArr _) = True"
| "truthy (JObj _) = True"

text \<open>
  Reading a property of a value that is neither \<open>null\<close> nor \<open>undefined\<close>; \<open>None\<close> is
  \<open>undefined\<close>. The program reads the names \<open>choices\<close>, \<open>message\<close>, \<open>content\<close> and
  \<open>ideaDescription\<close>, which no built-in prototype defines, and the index \<open>0\<close>.
\<close>

fun getProp :: "jsstring \<Rightarrow> json \<Rightarrow> json option" where
  "getProp name (JObj kvs) = map_of kvs name"
| "getProp name _ = None"

fun index0 :: "json \<Rightarrow> json option" where
  "index0 (JObj kvs) = map_of kvs (js ''0'')"
| "index0 (JArr []) = None"
| "index0 (JArr (x # _)) = Some x"
| "index0 (JStr []) = None"
| "index0 (JStr (c # _)) = Some (JStr [c])"
| "index0 _ = None"

fun optional :: "(json \<Rightarrow> json option) \<Rightarrow> json option \<Rightarrow> json option" where
  \<comment> \<open>the operator \<open>?.\<close>\<close>
  "optional f None = None"
| "optional f (Some JNull) = None"
| "optional f (Some v) = f v"

text \<open>Decimal digits of a non-negative integer, as a template literal prints a status.\<close>

fun showNat :: "nat \<Rightarrow> jsstring" where
  "showNat n = (if n < 10 then [0x30 + of_nat n] else showNat (n div 10) @ [0x30 + of_nat (n mod 10)])"

declare showNat.simps [simp del]

text \<open>
  \<open>String.prototype.replace\<close> with a string pattern and a string replacement: the first
  occurrence of the pattern is replaced, and in the replacement \<open>$$\<close> stands for \<open>$\<close>,
  \<open>$&\<close> for the matched text, \<open>$`\<close> for the text before the match and \<open>$'\<close> for the text
  after it. There are no captures, so every other character stands for itself.
\<close>

fun splitAt :: "jsstring \<Rightarrow> jsstring \<Rightarrow> (jsstring \<times> jsstring) option" where
  "splitAt pat [] = (if pat = [] then Some ([], []) else None)"
| "splitAt pat (x # s) =
     (if prefix pat (x # s) then Some ([], drop (length pat) (x # s))
      else map_option (\<lambda>(b, a). (x # b, a)) (splitAt pat s))"

fun getSubstitution :: "jsstring \<Rightarrow> jsstring \<Rightarrow> jsstring \<Rightarrow> jsstring \<Rightarrow> jsstring" where
  "getSubstitution matched preceding following [] = []"
| "getSubstitution matched preceding following [c] = [c]"
| "getSubstitution matched preceding following (c # d # r) =
     (if c = 0x24 \<and> d = 0x24 then 0x24 # getSubstitution matched preceding following r
      else if c = 0x24 \<and> d = 0x26 then matched @ getSubstitution matched preceding following r
      else if c = 0x24 \<and> d = 0x60 then preceding @ getSubstitution matched preceding following r
      else if c = 0x24 \<and> d = 0x27 then following @ getSubstitution matched preceding following r
      else c # getSubstitution matched preceding following (d # r))"

definition replace :: "jsstring \<Rightarrow> jsstring \<Rightarrow> jsstring \<Rightarrow> jsstring" where
  "replace s pat repl =
     (case splitAt pat s of
        None \<Rightarrow> s
      | Some (preceding, following) \<Rightarrow>
          preceding @ getSubstitution pat preceding following repl @ following)"

section \<open>The evaluator\<close>

record env =
  HUGGINGFACE_API_KEY :: "jsstring option"
  HUGGINGFACE_MODEL :: "jsstring option"
  HUGGINGFACE_API_BASE :: "jsstring option"

definition orDefault :: "jsstring option \<Rightarrow> jsstring \<Rightarrow> jsstring" where
  \<comment> \<open>\<open>process.env.X || d\<close>\<close>
  "orDefault v d = (case v of None \<Rightarrow> d | Some x \<Rightarrow> if x = [] then d else x)"

definition getHuggingFaceToken :: "env \<Rightarrow> thrown + jsstring" where
  "getHuggingFaceToken e =
     (case HUGGINGFACE_API_KEY e of
        None \<Rightarrow> Inl (Error (js ''Hugging Face API key is required. Please set HUGGINGFACE_API_KEY in your .env file.''))
      | Some apiKey \<Rightarrow>
          if apiKey = []
          then Inl (Error (js ''Hugging Face API key is required. Please set HUGGINGFACE_API_KEY in your .env file.''))
          else Inr apiKey)"

definition EVALUATION_PROMPT :: jsstring where
  \<open>EVALUATION_PROMPT = js ''You are an innovation evaluation expert at BMW. Analyze the following innovation concept CRITICALLY and provide a comprehensive evaluation with ACCURATE SCORES based on the actual quality of the concept.

IMPORTANT SCORING GUIDELINES:
- Scores must reflect the ACTUAL quality of THIS specific concept, not template values
- Poor concepts (unrealistic, vague, no market need) should score 1-4
- Mediocre concepts should score 5-6
- Good concepts should score 7-8
- Excellent concepts should score 9-10
- DO NOT use example scores - calculate real scores for THIS concept
- Be CRITICAL - most ideas have significant flaws

INNOVATION CONCEPT:
{ideaDescription}

Evaluate this concept across the following dimensions:

1. **Competitors & Similar Projects**: Identify existing competitors, similar solutions, or comparable products. How does this differ?

2. **BMW Strategy Alignment**: Evaluate alignment with BMW's strategy, brand positioning, and corporate values (premium quality, innovation, sustainability, mobility solutions).

3. **Desirability** (Score 1-10):
   - Market need and customer demand
   - Target customer segments and their actual needs
   - Market trends and timing
   - User experience and value proposition clarity
   - CRITICALLY assess: Is there real demand? Is the value clear?
   - Low scores (1-4) for: Unclear value, no market need, vague target customers
   - High scores (8-10) for: Clear need, strong demand, well-defined customers

4. **Feasibility** (Score 1-10):
   - Technical complexity and whether the technology exists/is proven
   - Resource requirements (R&D, manufacturing, expertise)
   - Regulatory and compliance challenges
   - Realistic time to market
   - CRITICALLY assess: Is this technically possible? Are resources realistic?
   - Low scores (1-4) for: Impossible tech, unrealistic resources, no clear path
   - High scores (8-10) for: Proven tech, clear resources, feasible timeline

5. **Viability** (Score 1-10):
   - Market size and realistic revenue potential
   - Cost structure and profitability potential
   - Competitive positioning and differentiation
   - Business model sustainability
   - CRITICALLY assess: Can this make money? Is the business model sound?
   - Low scores (1-4) for: No clear revenue, poor business model, unrealistic costs
   - High scores (8-10) for: Clear revenue path, sound model, realistic costs

6. **Overall Evaluation**:
   - Calculate overallScore as the average of desirability, feasibility, and viability scores
   - Identify specific strengths (be honest - weak concepts may have few)
   - Identify critical weaknesses and risks (be thorough)
   - Recommendation: "Strong" (8-10 avg), "Moderate" (5-7 avg), or "Weak" (1-4 avg)

7. **Improvement Recommendations**: Provide specific, actionable recommendations.

CRITICAL INSTRUCTIONS:
- Analyze THIS specific concept, not a generic template
- Use DIFFERENT scores than 7, 8, or 7.3 unless that's truly appropriate
- Bad ideas MUST get low scores (1-4)
- Good ideas get higher scores (7-10)
- Overall score MUST match the average of the three dimension scores
- Be HONEST and CRITICAL in your assessment

Return ONLY valid JSON in this exact structure (use ACTUAL scores for THIS concept):
{
  "competitors": {
    "existingSolutions": "Your analysis of competitors and similar projects",
    "differentiation": "How this concept differs"
  },
  "bmwAlignment": {
    "strategyFit": "Your assessment of BMW strategy alignment",
    "brandFit": "Your assessment of brand fit",
    "corporateValues": "Your assessment of values alignment"
  },
  "desirability": {
    "score": <YOUR_ACTUAL_SCORE_1_TO_10>,
    "justification": "Detailed justification based on THIS concept",
    "marketNeed": "Your assessment of market need",
    "customerAppeal": "Your assessment of customer appeal"
  },
  "feasibility": {
    "score": <YOUR_ACTUAL_SCORE_1_TO_10>,
    "justification": "Detailed justification based on THIS concept",
    "technicalComplexity": "Your assessment",
    "resourceRequirements": "Your assessment",
    "regulatoryChallenges": "Your assessment"
  },
  "viability": {
    "score": <YOUR_ACTUAL_SCORE_1_TO_10>,
    "justification": "Detailed justification based on THIS concept",
    "marketPotential": "Your assessment",
    "costStructure": "Your assessment",
    "competitivePositioning": "Your assessment"
  },
  "overallEvaluation": {
    "overallScore": <CALCULATED_AVERAGE_OF_THREE_SCORES>,
    "strengths": ["Actual strengths of THIS concept"],
    "weaknesses": ["Actual weaknesses of THIS concept"],
    "risks": ["Actual risks of THIS concept"],
    "recommendation": "Strong" or "Moderate" or "Weak"
  },
  "improvements": [
    "Specific recommendation 1",
    "Specific recommendation 2",
    "Specific recommendation 3"
  ]
}''\<close>

definition systemMessage :: jsstring where
  "systemMessage = js ''You are a critical innovation evaluation expert at BMW. You MUST provide honest, accurate scores based on the actual quality of each concept. Do NOT use template or example scores. Poor concepts must receive low scores (1-4), good concepts get higher scores (7-10). Always calculate the overall score as the average of desirability, feasibility, and viability scores. Be thorough and critical in your assessment. Return ONLY valid JSON.''"

definition buildPrompt :: "jsstring \<Rightarrow> jsstring" where
  "buildPrompt ideaDescription = replace EVALUATION_PROMPT (js ''{ideaDescription}'') ideaDescription"

definition buildMessages :: "jsstring \<Rightarrow> json" where
  "buildMessages ideaDescription =
     JArr [JObj [(js ''role'', JStr (js ''system'')), (js ''content'', JStr systemMessage)],
           JObj [(js ''role'', JStr (js ''user'')), (js ''content'', JStr (buildPrompt ideaDescription))]]"

text \<open>The request given to \<open>fetch\<close>; its body is the object that is serialised.\<close>

record request =
  url :: jsstring
  httpMethod :: jsstring
  headers :: "(jsstring \<times> jsstring) list"
  body :: json

definition buildRequest :: "env \<Rightarrow> jsstring \<Rightarrow> jsstring \<Rightarrow> request" where
  "buildRequest e hfToken ideaDescription =
     \<lparr> url = orDefault (HUGGINGFACE_API_BASE e) (js ''https://router.huggingface.co'')
               @ js ''/v1/chat/completions'',
       httpMethod = js ''POST'',
       headers = [(js ''Authorization'', js ''Bearer '' @ hfToken),
                  (js ''Content-Type'', js ''application/json'')],
       body = JObj [(js ''model'', JStr (orDefault (HUGGINGFACE_MODEL e) (js ''meta-llama/Llama-3.1-8B-Instruct''))),
                    (js ''messages'', buildMessages ideaDescription),
                    (js ''temperature'', JNum (js ''0.8'')),
                    (js ''max_tokens'', JNum (js ''2500'')),
                    (js ''stream'', JBool False)] \<rparr>"

text \<open>
  What the provider answers: \<open>fetch\<close> rejects, or resolves with a status and a body. Reading
  the body either rejects with a message or gives its text.
\<close>

datatype response = Response (status: nat) (bodyText: "jsstring + jsstring")

datatype fetched = Rejected jsstring | Resolved response

type_synonym provider = "request \<Rightarrow> fetched"

definition ok :: "response \<Rightarrow> bool" where
  "ok r \<longleftrightarrow> 200 \<le> status r \<and> status r \<le> 299"

definition completionContent :: "json \<Rightarrow> thrown + json" where
  \<comment> \<open>\<open>data.choices?.[0]?.message?.content || ''\<close>\<close>
  "completionContent data =
     (case data of
        JNull \<Rightarrow> Inl (TypeErrorNullProperty (js ''choices''))
      | _ \<Rightarrow>
          (case optional (getProp (js ''content''))
                  (optional (getProp (js ''message''))
                    (optional index0 (getProp (js ''choices'') data))) of
             None \<Rightarrow> Inr (JStr [])
           | Some v \<Rightarrow> Inr (if truthy v then v else JStr [])))"

definition parseCompletion :: "json \<Rightarrow> thrown + json" where
  \<comment> \<open>lines 202 to 216\<close>
  "parseCompletion content =
     (case content of
        JStr c \<Rightarrow> JSON_parse (extractJson c)
      | _ \<Rightarrow> Inl (TypeErrorNotFunction (js ''content.match'')))"

definition handleResponse :: "response \<Rightarrow> thrown + json" where
  \<comment> \<open>lines 191 to 216\<close>
  "handleResponse r =
     (if \<not> ok r then
        (case bodyText r of
           Inl m \<Rightarrow> Inl (Rejection m)
         | Inr errorText \<Rightarrow>
             Inl (Error (js ''Hugging Face Router error '' @ showNat (status r) @ js '': '' @ errorText)))
      else
        (case bodyText r of
           Inl m \<Rightarrow> Inl (Rejection m)
         | Inr text \<Rightarrow>
             (case JSON_parse text of
                Inl e \<Rightarrow> Inl e
              | Inr data \<Rightarrow>
                  (case completionContent data of
                     Inl e \<Rightarrow> Inl e
                   | Inr content \<Rightarrow> parseCompletion content))))"

text \<open>
  The body of the \<open>try\<close> block: what it returns or throws, and the requests it has sent.
\<close>

definition tryEvaluate :: "env \<Rightarrow> provider \<Rightarrow> jsstring \<Rightarrow> (thrown + json) \<times> request list" where
  "tryEvaluate e p ideaDescription =
     (case getHuggingFaceToken e of
        Inl err \<Rightarrow> (Inl err, [])
      | Inr hfToken \<Rightarrow>
          (let req = buildRequest e hfToken ideaDescription
           in case p req of
                Rejected m \<Rightarrow> (Inl (Rejection m), [req])
              | Resolved r \<Rightarrow> (handleResponse r, [req])))"

definition EvaluationFailure :: "jsstring \<Rightarrow> json" where
  "EvaluationFailure m =
     JObj [(js ''error'', JStr (js ''Failed to generate evaluation'')),
           (js ''message'', JStr m),
           (js ''fallback'', JBool True)]"

definition evaluateInnovation :: "engine \<Rightarrow> env \<Rightarrow> provider \<Rightarrow> jsstring \<Rightarrow> json \<times> request list" where
  "evaluateInnovation w e p ideaDescription =
     (case tryEvaluate e p ideaDescription of
        (Inl err, sent) \<Rightarrow> (EvaluationFailure (message w err), sent)
      | (Inr v, sent) \<Rightarrow> (v, sent))"

section \<open>The route \<open>POST /api/evaluate\<close>\<close>

record reply =
  code :: nat
  payload :: json

text \<open>
  The handler of the route, given the parsed body of the request (\<open>None\<close> when there is
  none). A call of \<open>trim\<close> on a value that is not a string throws, since no value read from
  JSON is a function.
\<close>

definition evaluateRoute :: "engine \<Rightarrow> env \<Rightarrow> provider \<Rightarrow> json option \<Rightarrow> reply \<times> request list" where
  "evaluateRoute w e p reqBody =
     (let caught = (\<lambda>err. (\<lparr> code = 500,
                              payload = JObj [(js ''error'', JStr (js ''Failed to evaluate innovation concept'')),
                                              (js ''details'', JStr (message w err))] \<rparr>, []));
          rejected = (\<lparr> code = 400,
                        payload = JObj [(js ''error'', JStr (js ''Idea description is required''))] \<rparr>, [])
      in case reqBody of
           None \<Rightarrow> caught (TypeErrorNullProperty (js ''ideaDescription''))
         | Some JNull \<Rightarrow> caught (TypeErrorNullProperty (js ''ideaDescription''))
         | Some b \<Rightarrow>
             (case getProp (js ''ideaDescription'') b of
                None \<Rightarrow> rejected
              | Some v \<Rightarrow>
                  if \<not> truthy v then rejected
                  else
                    (case v of
                       JStr ideaDescription \<Rightarrow>
                         if length (trim ideaDescription) = 0 then rejected
                         else (case evaluateInnovation w e p ideaDescription of
                                 (evaluation, sent) \<Rightarrow> (\<lparr> code = 200, payload = evaluation \<rparr>, sent))
                     | _ \<Rightarrow> caught (TypeErrorNotFunction (js ''ideaDescription.trim'')))))"


section \<open>Serialisation\<close>










section \<open>Descriptions used in the statements\<close>

text \<open>The characters \<open>{\<close>, \<open>}\<close> and the backtick.\<close>

definition LBRACE :: jschar where "LBRACE = 0x7B"

definition RBRACE :: jschar where "RBRACE = 0x7D"

definition BACKTICK :: jschar where "BACKTICK = 0x60"

text \<open>The suffixes of a text that begin with \<open>}\<close>, the shortest first.\<close>

definition closers :: "jsstring \<Rightarrow> jsstring list" where
  "closers v = filter (\<lambda>r. prefix [RBRACE] r) (suffixes v)"

text \<open>
  The span of the specification: from the first \<open>{\<close> of the text to the last \<open>}\<close>, when
  there is a \<open>}\<close> after the first \<open>{\<close>.
\<close>

definition braceSpan :: "jsstring \<Rightarrow> jsstring option" where
  "braceSpan content =
     (let t = dropWhile (\<lambda>c. c \<noteq> LBRACE) content
      in if RBRACE \<in> set t then Some (rev (dropWhile (\<lambda>c. c \<noteq> RBRACE) (rev t))) else None)"

text \<open>
  The fenced pattern, read from left to right: \<open>fenceEnd\<close> is the closing fence after
  optional white space, \<open>fencedObj\<close> the object and the closing fence, \<open>fencedAt\<close> the
  whole pattern at the start of a text. Each lists its matches in the order of the engine.
\<close>

definition fenceEnd :: "jsstring \<Rightarrow> jsstring option" where
  "fenceEnd w =
     (let w' = dropWhile isSpace w
      in if prefix (js ''```'') w' then Some (drop 3 w') else None)"

definition fencedObj :: "jsstring \<Rightarrow> mstate list" where
  "fencedObj u =
     (case u of [] \<Rightarrow> []
      | x # v \<Rightarrow>
          if x = LBRACE
          then concat (map (\<lambda>r. case fenceEnd (tl r) of
                                   Some rest \<Rightarrow> [(rest, Some (take (length u - length (tl r)) u))]
                                 | None \<Rightarrow> [])
                           (closers v))
          else [])"

definition fencedAt :: "jsstring \<Rightarrow> mstate list" where
  "fencedAt s =
     (if prefix (js ''```'') s
      then (if prefix (js ''json'') (drop 3 s)
            then fencedObj (dropWhile isSpace (drop 7 s)) else [])
           @ fencedObj (dropWhile isSpace (drop 3 s))
      else [])"

text \<open>The template before and after its placeholder.\<close>

definition promptHead :: string where
  \<open>promptHead = ''You are an innovation evaluation expert at BMW. Analyze the following innovation concept CRITICALLY and provide a comprehensive evaluation with ACCURATE SCORES based on the actual quality of the concept.

IMPORTANT SCORING GUIDELINES:
- Scores must reflect the ACTUAL quality of THIS specific concept, not template values
- Poor concepts (unrealistic, vague, no market need) should score 1-4
- Mediocre concepts should score 5-6
- Good concepts should score 7-8
- Excellent concepts should score 9-10
- DO NOT use example scores - calculate real scores for THIS concept
- Be CRITICAL - most ideas have significant flaws

INNOVATION CONCEPT:
''\<close>

definition promptTail :: string where
  \<open>promptTail = ''

Evaluate this concept across the following dimensions:

1. **Competitors & Similar Projects**: Identify existing competitors, similar solutions, or comparable products. How does this differ?

2. **BMW Strategy Alignment**: Evaluate alignment with BMW's strategy, brand positioning, and corporate values (premium quality, innovation, sustainability, mobility solutions).

3. **Desirability** (Score 1-10):
   - Market need and customer demand
   - Target customer segments and their actual needs
   - Market trends and timing
   - User experience and value proposition clarity
   - CRITICALLY assess: Is there real demand? Is the value clear?
   - Low scores (1-4) for: Unclear value, no market need, vague target customers
   - High scores (8-10) for: Clear need, strong demand, well-defined customers

4. **Feasibility** (Score 1-10):
   - Technical complexity and whether the technology exists/is proven
   - Resource requirements (R&D, manufacturing, expertise)
   - Regulatory and compliance challenges
   - Realistic time to market
   - CRITICALLY assess: Is this technically possible? Are resources realistic?
   - Low scores (1-4) for: Impossible tech, unrealistic resources, no clear path
   - High scores (8-10) for: Proven tech, clear resources, feasible timeline

5. **Viability** (Score 1-10):
   - Market size and realistic revenue potential
   - Cost structure and profitability potential
   - Competitive positioning and differentiation
   - Business model sustainability
   - CRITICALLY assess: Can this make money? Is the business model sound?
   - Low scores (1-4) for: No clear revenue, poor business model, unrealistic costs
   - High scores (8-10) for: Clear revenue path, sound model, realistic costs

6. **Overall Evaluation**:
   - Calculate overallScore as the average of desirability, feasibility, and viability scores
   - Identify specific strengths (be honest - weak concepts may have few)
   - Identify critical weaknesses and risks (be thorough)
   - Recommendation: "Strong" (8-10 avg), "Moderate" (5-7 avg), or "Weak" (1-4 avg)

7. **Improvement Recommendations**: Provide specific, actionable recommendations.

CRITICAL INSTRUCTIONS:
- Analyze THIS specific concept, not a generic template
- Use DIFFERENT scores than 7, 8, or 7.3 unless that's truly appropriate
- Bad ideas MUST get low scores (1-4)
- Good ideas get higher scores (7-10)
- Overall score MUST match the average of the three dimension scores
- Be HONEST and CRITICAL in your assessment

Return ONLY valid JSON in this exact structure (use ACTUAL scores for THIS concept):
{
  "competitors": {
    "existingSolutions": "Your analysis of competitors and similar projects",
    "differentiation": "How this concept differs"
  },
  "bmwAlignment": {
    "strategyFit": "Your assessment of BMW strategy alignment",
    "brandFit": "Your assessment of brand fit",
    "corporateValues": "Your assessment of values alignment"
  },
  "desirability": {
    "score": <YOUR_ACTUAL_SCORE_1_TO_10>,
    "justification": "Detailed justification based on THIS concept",
    "marketNeed": "Your assessment of market need",
    "customerAppeal": "Your assessment of customer appeal"
  },
  "feasibility": {
    "score": <YOUR_ACTUAL_SCORE_1_TO_10>,
    "justification": "Detailed justification based on THIS concept",
    "technicalComplexity": "Your assessment",
    "resourceRequirements": "Your assessment",
    "regulatoryChallenges": "Your assessment"
  },
  "viability": {
    "score": <YOUR_ACTUAL_SCORE_1_TO_10>,
    "justification": "Detailed justification based on THIS concept",
    "marketPotential": "Your assessment",
    "costStructure": "Your assessment",
    "competitivePositioning": "Your assessment"
  },
  "overallEvaluation": {
    "overallScore": <CALCULATED_AVERAGE_OF_THREE_SCORES>,
    "strengths": ["Actual strengths of THIS concept"],
    "weaknesses": ["Actual weaknesses of THIS concept"],
    "risks": ["Actual risks of THIS concept"],
    "recommendation": "Strong" or "Moderate" or "Weak"
  },
  "improvements": [
    "Specific recommendation 1",
    "Specific recommendation 2",
    "Specific recommendation 3"
  ]
}''\<close>

text \<open>
  A provider that gives every request the same answer, an engine with messages of its own
  and an environment with an API key, for the examples.
\<close>

definition always :: "fetched \<Rightarrow> provider" where
  "always f = (\<lambda>_. f)"

definition sampleEngine :: engine where
  "sampleEngine t =
     (case t of
        SyntaxError text \<Rightarrow> js ''Unexpected token or end of JSON input''
      | TypeErrorNullProperty name \<Rightarrow> js ''Cannot read properties of null''
      | TypeErrorNotFunction name \<Rightarrow> name @ js '' is not a function''
      | Error m \<Rightarrow> m
      | Rejection m \<Rightarrow> m)"

definition sampleEnv :: env where
  "sampleEnv = \<lparr> HUGGINGFACE_API_KEY = Some (js ''hf_secret''),
                  HUGGINGFACE_MODEL = None, HUGGINGFACE_API_BASE = None \<rparr>"

definition emptyEnv :: env where
  "emptyEnv = \<lparr> HUGGINGFACE_API_KEY = None, HUGGINGFACE_MODEL = None, HUGGINGFACE_API_BASE = None \<rparr>"









fun need :: "json \<Rightarrow> nat" where
  "need (JArr xs) = Suc (length xs + sum_list (map need xs))"
| "need (JObj kvs) = Suc (length kvs + sum_list (map (\<lambda>(k, v). need v) kvs))"
| "need _ = 1"



section \<open>The regular expressions\<close>

lemma js_simps: "js [] = []" "js (x # xs) = of_char x # js xs" "js (a @ b) = js a @ js b"
  by (simp_all add: js_def)

lemma js_chars: "js ''{'' = [LBRACE]" "js ''}'' = [RBRACE]" "js ''```'' = [BACKTICK, BACKTICK, BACKTICK]"
  by (simp_all add: js_def LBRACE_def RBRACE_def BACKTICK_def)

lemmas run_Star = run.simps(5)

declare run.simps(5) [simp del]

lemma run_star_cls:
  "run (Star (Cls as)) (s, c) =
     (case s of [] \<Rightarrow> [([], c)]
      | x # r \<Rightarrow> if list_ex (\<lambda>a. atomMatches a x) as
                 then run (Star (Cls as)) (r, c) @ [(s, c)] else [(s, c)])"
  by (cases s) (simp_all add: run_Star)

lemma run_star_all:
  assumes "\<And>x. list_ex (\<lambda>a. atomMatches a x) as"
  shows "run (Star (Cls as)) (s, c) = map (\<lambda>r. (r, c)) (suffixes s)"
proof (induction s)
  case Nil
  show ?case by (subst run_star_cls) simp
next
  case (Cons x s)
  show ?case by (subst run_star_cls) (simp add: Cons.IH assms)
qed

lemma run_star_any: "run (Star anyChar) (s, c) = map (\<lambda>r. (r, c)) (suffixes s)"
  by (rule run_star_all) simp

lemma run_star_space_then:
  assumes "\<And>x r. isSpace x \<Longrightarrow> F (x # r, c) = []"
  shows "concat (map F (run (Star space) (s, c))) = F (dropWhile isSpace s, c)"
proof (induction s)
  case Nil
  show ?case by (subst run_star_cls) simp
next
  case (Cons x s)
  show ?case by (subst run_star_cls) (simp add: Cons.IH assms)
qed

lemma run_objBody:
  "run objBody (s, c) =
     (case s of [] \<Rightarrow> []
      | x # v \<Rightarrow> if x = LBRACE then map (\<lambda>r. (tl r, c)) (closers v) else [])"
proof (cases s)
  case Nil
  then show ?thesis by (simp add: objBody_def js_chars)
next
  case (Cons x v)
  have *: "concat (map (\<lambda>r. if prefix [RBRACE] r then [(drop (length [RBRACE]) r, c)] else []) xs)
           = map (\<lambda>r. (tl r, c)) (filter (\<lambda>r. prefix [RBRACE] r) xs)" for xs
    by (induction xs) (auto simp: drop_Suc)
  show ?thesis
    using Cons by (simp add: objBody_def js_chars run_star_any closers_def map_concat comp_def *)
qed

lemma closers_append:
  "closers (a @ RBRACE # b) =
     closers b @ (RBRACE # b) # filter (prefix [RBRACE]) (map (\<lambda>xs. xs @ RBRACE # b) (tl (suffixes a)))"
  by (simp add: closers_def suffixes_append)

lemma closers_empty: "RBRACE \<notin> set b \<Longrightarrow> closers b = []"
proof -
  assume nb: "RBRACE \<notin> set b"
  have "\<not> prefix [RBRACE] r" if "suffix r b" for r
  proof
    assume "prefix [RBRACE] r"
    then obtain r' where "r = RBRACE # r'" by (auto simp: prefix_def)
    with that have "RBRACE \<in> set b" using set_mono_suffix by fastforce
    with nb show False by simp
  qed
  then show ?thesis by (simp add: closers_def filter_empty_conv)
qed

lemma LBRACE_neq_RBRACE: "LBRACE \<noteq> RBRACE" by (simp add: LBRACE_def RBRACE_def)

lemma search_objRe: "search objRe s = map_option (\<lambda>m. (m, None)) (braceSpan s)"
proof (induction s)
  case Nil
  show ?case by (simp add: objRe_def run_objBody braceSpan_def)
next
  case (Cons x t)
  show ?case
  proof (cases "x = LBRACE")
    case False
    then show ?thesis
      using Cons.IH by (simp add: objRe_def run_objBody braceSpan_def)
  next
    case True
    show ?thesis
    proof (cases "RBRACE \<in> set t")
      case False
      then have "closers t = []" by (rule closers_empty)
      moreover have "braceSpan t = None"
        using False by (auto simp: braceSpan_def Let_def dest: set_dropWhileD)
      ultimately show ?thesis
        using True False Cons.IH LBRACE_neq_RBRACE
        by (simp add: objRe_def run_objBody braceSpan_def)
    next
      case in_t: True
      then obtain a b where t: "t = a @ RBRACE # b" and nb: "RBRACE \<notin> set b"
        by (meson split_list_last)
      have cl: "closers t = (RBRACE # b) # filter (prefix [RBRACE]) (map (\<lambda>xs. xs @ RBRACE # b) (tl (suffixes a)))"
        by (simp add: t closers_append closers_empty [OF nb])
      have sp: "rev (dropWhile (\<lambda>c. c \<noteq> RBRACE) (rev (LBRACE # t))) = LBRACE # a @ [RBRACE]"
      proof -
        have "dropWhile (\<lambda>c. c \<noteq> RBRACE) (rev b @ RBRACE # rev a @ [LBRACE]) = dropWhile (\<lambda>c. c \<noteq> RBRACE) (RBRACE # rev a @ [LBRACE])"
          by (rule dropWhile_append2) (use nb in auto)
        then show ?thesis by (simp add: t)
      qed
      have tk: "take (length (LBRACE # t) - length b) (LBRACE # t) = LBRACE # a @ [RBRACE]"
        by (simp add: t)
      show ?thesis
        using True in_t sp tk
        by (simp add: objRe_def run_objBody cl braceSpan_def del: take_Suc_Cons)
    qed
  qed
qed

lemma not_space: "\<not> isSpace BACKTICK" "\<not> isSpace LBRACE" "\<not> isSpace RBRACE"
  by (simp_all add: isSpace_def BACKTICK_def LBRACE_def RBRACE_def)

lemma run_fence_end:
  "run (Cat (Star space) (Lit (js ''```''))) (w, c) =
     (case fenceEnd w of Some rest \<Rightarrow> [(rest, c)] | None \<Rightarrow> [])"
proof -
  have "concat (map (run (Lit (js ''```''))) (run (Star space) (w, c)))
        = run (Lit (js ''```'')) (dropWhile isSpace w, c)"
    by (rule run_star_space_then) (use not_space in \<open>auto simp: js_chars\<close>)
  then show ?thesis by (simp add: fenceEnd_def Let_def js_chars numeral_3_eq_3)
qed

lemma run_group_obj:
  "run (Cat (Group objBody) (Cat (Star space) (Lit (js ''```'')))) (u, c) = fencedObj u"
proof -
  let ?R4 = "Cat (Star space) (Lit (js ''```''))"
  let ?g = "\<lambda>(r, _::jsstring option). (r, Some (take (length u - length r) u))"
  let ?h = "\<lambda>(r, _::jsstring option). case fenceEnd r of
                Some rest \<Rightarrow> [(rest, Some (take (length u - length r) u))]
              | None \<Rightarrow> []"
  have step: "concat (map (run ?R4) (map ?g xs)) = concat (map ?h xs)" for xs
    by (induction xs) (auto simp: run_fence_end simp del: run.simps)
  have "run (Cat (Group objBody) ?R4) (u, c)
        = concat (map (run ?R4) (map ?g (run objBody (u, c))))"
    by (simp only: run.simps(3) run.simps(6))
  also have "\<dots> = concat (map ?h (run objBody (u, c)))"
    by (rule step)
  also have "\<dots> = fencedObj u"
    by (cases u) (auto simp add: run_objBody fencedObj_def comp_def)
  finally show ?thesis .
qed

lemma run_opt_space_obj:
  "run (Cat (Star space) (Cat (Group objBody) (Cat (Star space) (Lit (js ''```''))))) (t, c)
     = fencedObj (dropWhile isSpace t)"
proof -
  let ?R3 = "Cat (Group objBody) (Cat (Star space) (Lit (js ''```'')))"
  have A: "concat (map (run ?R3) (run (Star space) (t, c))) = run ?R3 (dropWhile isSpace t, c)"
  proof (rule run_star_space_then)
    fix x r assume "isSpace x"
    then have "x \<noteq> LBRACE" using not_space by auto
    then show "run ?R3 (x # r, c) = []"
      by (simp only: run_group_obj) (simp add: fencedObj_def)
  qed
  show ?thesis by (simp only: run.simps(3) [of "Star space"] A run_group_obj)
qed

lemma run_fencedRe: "run fencedRe (s, c) = fencedAt s"
proof -
  let ?R2 = "Cat (Star space) (Cat (Group objBody) (Cat (Star space) (Lit (js ''```''))))"
  have len: "length (js ''json'') = 4" "length (js ''```'') = 3" by (simp_all add: js_def)
  have R1: "run (Cat (Opt (Lit (js ''json''))) ?R2) (t, c') =
        (if prefix (js ''json'') t then fencedObj (dropWhile isSpace (drop 4 t)) else [])
        @ fencedObj (dropWhile isSpace t)" for t c'
    by (simp only: run.simps(3) [of "Opt (Lit (js ''json''))"] run.simps(4) run.simps(1))
       (simp add: run_opt_space_obj len del: run.simps)
  show ?thesis
    unfolding fencedRe_def
    by (simp only: run.simps(3) [of "Lit (js ''```'')"] run.simps(1))
       (simp add: R1 len fencedAt_def del: run.simps)
qed

lemma suffix_skip_prefix:
  assumes "suffix r (a @ b)" "r \<noteq> []" "hd r \<notin> set a"
  shows "suffix r b"
proof -
  from assms(1) consider "suffix r b" | a' where "suffix a' a" "r = a' @ b"
    by (auto simp: suffix_append)
  then show ?thesis
  proof cases
    case 1 then show ?thesis .
  next
    case 2
    show ?thesis
    proof (cases a')
      case Nil with 2 show ?thesis by simp
    next
      case (Cons x xs)
      with 2 have "hd r \<in> set a" using set_mono_suffix by fastforce
      with assms(3) show ?thesis by simp
    qed
  qed
qed

lemma fenceEnd_no_fence:
  assumes "\<not> sublist (js ''```'') post" "suffix w post"
  shows "fenceEnd w = None"
proof -
  have "suffix (dropWhile isSpace w) w" by (rule suffix_dropWhile)
  from this assms(2) have "suffix (dropWhile isSpace w) post" by (rule suffix_order.trans)
  then have "\<not> prefix (js ''```'') (dropWhile isSpace w)"
    using assms(1) by (auto simp: sublist_def prefix_def suffix_def)
  then show ?thesis by (simp add: fenceEnd_def Let_def)
qed

lemma fenceEnd_fence:
  assumes "\<forall>x\<in>set ws. isSpace x"
  shows "fenceEnd (ws @ js ''```'' @ post) = Some post"
proof -
  have "dropWhile isSpace (ws @ js ''```'' @ post) = dropWhile isSpace (js ''```'' @ post)"
    by (rule dropWhile_append2) (use assms in auto)
  then show ?thesis using not_space by (simp add: fenceEnd_def js_chars)
qed

lemma fencedObj_block:
  assumes ws: "\<forall>x\<in>set ws. isSpace x" and post: "\<not> sublist (js ''```'') post"
  shows "\<exists>rest. fencedObj (LBRACE # mid @ RBRACE # ws @ js ''```'' @ post)
                = (post, Some (LBRACE # mid @ [RBRACE])) # rest"
proof -
  let ?tail = "ws @ js ''```'' @ post"
  let ?u = "LBRACE # mid @ RBRACE # ?tail"
  let ?f = "\<lambda>r. case fenceEnd (tl r) of
                 Some rest \<Rightarrow> [(rest, Some (take (length ?u - length (tl r)) ?u))]
               | None \<Rightarrow> []"
  have early: "?f r = []" if "r \<in> set (closers ?tail)" for r
  proof -
    from that have sr: "suffix r ?tail" and pr: "prefix [RBRACE] r" by (simp_all add: closers_def)
    from pr obtain r' where r: "r = RBRACE # r'" by (auto simp: prefix_def)
    have "RBRACE \<notin> set ws" using ws not_space by auto
    then have "hd r \<notin> set ws" by (simp add: r)
    with sr have s1: "suffix r (js ''```'' @ post)"
      using suffix_skip_prefix [of r ws "js ''```'' @ post"] by (simp add: r)
    have "hd r \<notin> set (js ''```'')" by (simp add: r js_chars RBRACE_def BACKTICK_def)
    with s1 have "suffix r post"
      using suffix_skip_prefix [of r "js ''```''" post] by (simp add: r)
    then have "suffix r' post" unfolding r by (rule suffix_ConsD)
    with post have "fenceEnd r' = None" by (rule fenceEnd_no_fence)
    then show ?thesis by (simp add: r)
  qed
  have here: "?f (RBRACE # ?tail) = [(post, Some (LBRACE # mid @ [RBRACE]))]"
  proof -
    have "fenceEnd ?tail = Some post" by (rule fenceEnd_fence [OF ws])
    moreover have "take (length ?u - length ?tail) ?u = LBRACE # mid @ [RBRACE]" by simp
    ultimately show ?thesis by (simp del: take_Suc_Cons)
  qed
  have none: "concat (map ?f (closers ?tail)) = []"
    using early by (simp del: take_Suc_Cons)
  have "closers (mid @ RBRACE # ?tail) = closers ?tail @ (RBRACE # ?tail) #
           filter (prefix [RBRACE]) (map (\<lambda>xs. xs @ RBRACE # ?tail) (tl (suffixes mid)))"
    by (rule closers_append)
  then have "concat (map ?f (closers (mid @ RBRACE # ?tail)))
      = concat (map ?f (closers ?tail)) @ ?f (RBRACE # ?tail) @
        concat (map ?f (filter (prefix [RBRACE]) (map (\<lambda>xs. xs @ RBRACE # ?tail) (tl (suffixes mid)))))"
    by (simp only: map_append concat_append list.map concat.simps)
  then have "concat (map ?f (closers (mid @ RBRACE # ?tail)))
      = (post, Some (LBRACE # mid @ [RBRACE])) #
        concat (map ?f (filter (prefix [RBRACE]) (map (\<lambda>xs. xs @ RBRACE # ?tail) (tl (suffixes mid)))))"
    by (simp only: none here append_Nil append_Cons)
  then show ?thesis
    unfolding fencedObj_def by (simp only: list.case simp_thms if_True) blast
qed

lemma dropWhile_spaces:
  assumes "\<forall>x\<in>set ws. isSpace x" "\<not> isSpace y"
  shows "dropWhile isSpace (ws @ y # t) = y # t"
proof -
  have "dropWhile isSpace (ws @ y # t) = dropWhile isSpace (y # t)"
    by (rule dropWhile_append2) (use assms in auto)
  then show ?thesis using assms(2) by simp
qed

lemma not_json_prefix:
  assumes "\<forall>x\<in>set ws. isSpace x"
  shows "\<not> prefix (js ''json'') (ws @ LBRACE # t)"
proof (cases ws)
  case Nil
  then show ?thesis by (simp add: js_def LBRACE_def)
next
  case (Cons w ws')
  with assms have "isSpace w" by simp
  then have "w \<noteq> 0x6A" by (auto simp: isSpace_def)
  then show ?thesis using Cons by (simp add: js_def)
qed

lemma fencedAt_block:
  assumes tag: "tag = [] \<or> tag = js ''json''"
    and ws1: "\<forall>x\<in>set ws1. isSpace x" and ws2: "\<forall>x\<in>set ws2. isSpace x"
    and post: "\<not> sublist (js ''```'') post"
  shows "\<exists>rest. fencedAt (js ''```'' @ tag @ ws1 @ LBRACE # mid @ RBRACE # ws2 @ js ''```'' @ post)
                = (post, Some (LBRACE # mid @ [RBRACE])) # rest"
proof -
  let ?u = "LBRACE # mid @ RBRACE # ws2 @ js ''```'' @ post"
  from fencedObj_block [OF ws2 post, of mid]
  obtain rest where obj: "fencedObj ?u = (post, Some (LBRACE # mid @ [RBRACE])) # rest" by blast
  have dw: "dropWhile isSpace (ws1 @ ?u) = ?u"
    using ws1 not_space(2) by (rule dropWhile_spaces)
  from tag show ?thesis
  proof
    assume "tag = []"
    moreover have "\<not> prefix (js ''json'') (ws1 @ ?u)" using ws1 by (rule not_json_prefix)
    ultimately show ?thesis
      using obj dw by (simp add: fencedAt_def js_chars)
  next
    assume t: "tag = js ''json''"
    have "drop 7 (js ''```'' @ js ''json'' @ ws1 @ ?u) = ws1 @ ?u"
      by (simp add: js_def)
    moreover have "prefix (js ''json'') (drop 3 (js ''```'' @ js ''json'' @ ws1 @ ?u))"
      by (simp add: js_def)
    moreover have "prefix (js ''```'') (js ''```'' @ js ''json'' @ ws1 @ ?u)"
      by simp
    ultimately show ?thesis
      unfolding t fencedAt_def using obj dw by (simp only: if_True append_Cons) blast
  qed
qed

lemma fencedAt_straddle:
  assumes pre: "\<not> sublist (js ''```'') pre" and suf: "suffix p pre" and ne: "p \<noteq> []"
  shows "fencedAt (p @ js ''```'' @ rest) = []"
proof (cases "prefix (js ''```'') (p @ js ''```'' @ rest)")
  case False
  then show ?thesis by (simp add: fencedAt_def)
next
  case True
  have np: "\<not> prefix (js ''```'') p"
  proof
    assume "prefix (js ''```'') p"
    then have "sublist (js ''```'') p" by (rule prefix_imp_sublist)
    moreover have "sublist p pre" using suf by (rule suffix_imp_sublist)
    ultimately show False using pre sublist_order.order.trans by blast
  qed
  from ne obtain a p' where p: "p = a # p'" by (cases p) auto
  have "p = [BACKTICK] \<or> p = [BACKTICK, BACKTICK]"
  proof (cases p')
    case Nil
    with True p show ?thesis by (simp add: js_chars)
  next
    case (Cons b p'')
    show ?thesis
    proof (cases p'')
      case Nil
      with True p Cons show ?thesis by (simp add: js_chars)
    next
      case (Cons c p3)
      with True p \<open>p' = b # p''\<close> np show ?thesis by (simp add: js_chars)
    qed
  qed
  then show ?thesis
    using not_space by (auto simp: fencedAt_def js_chars js_def fencedObj_def BACKTICK_def LBRACE_def)
qed

lemma search_skip:
  assumes "\<And>p. suffix p pre \<Longrightarrow> p \<noteq> [] \<Longrightarrow> run re (p @ rest, None) = []"
  shows "search re (pre @ rest) = search re rest"
  using assms
proof (induction pre)
  case Nil
  show ?case by simp
next
  case (Cons x pre)
  have "run re ((x # pre) @ rest, None) = []"
    by (rule Cons.prems) simp_all
  moreover have "search re (pre @ rest) = search re rest"
    by (rule Cons.IH) (simp add: Cons.prems suffix_Cons)
  ultimately show ?case by simp
qed

lemma search_fenced_block:
  assumes tag: "tag = [] \<or> tag = js ''json''"
    and ws1: "\<forall>x\<in>set ws1. isSpace x" and ws2: "\<forall>x\<in>set ws2. isSpace x"
    and pre: "\<not> sublist (js ''```'') pre" and post: "\<not> sublist (js ''```'') post"
  shows "search fencedRe (pre @ js ''```'' @ tag @ ws1 @ LBRACE # mid @ RBRACE # ws2 @ js ''```'' @ post)
         = Some (js ''```'' @ tag @ ws1 @ LBRACE # mid @ RBRACE # ws2 @ js ''```'', Some (LBRACE # mid @ [RBRACE]))"
proof -
  let ?blk = "js ''```'' @ tag @ ws1 @ LBRACE # mid @ RBRACE # ws2 @ js ''```''"
  let ?s = "js ''```'' @ tag @ ws1 @ LBRACE # mid @ RBRACE # ws2 @ js ''```'' @ post"
  have "search fencedRe (pre @ ?s) = search fencedRe ?s"
  proof (rule search_skip)
    fix p assume "suffix p pre" "p \<noteq> []"
    with pre have "fencedAt (p @ ?s) = []" by (rule fencedAt_straddle)
    then show "run fencedRe (p @ ?s, None) = []"
      by (simp only: run_fencedRe)
  qed
  moreover from fencedAt_block [OF tag ws1 ws2 post, of mid]
  obtain r where r: "run fencedRe (?s, None) = (post, Some (LBRACE # mid @ [RBRACE])) # r"
    by (auto simp only: run_fencedRe)
  have "?s = BACKTICK # tl ?s" by (simp add: js_chars)
  then have "search fencedRe ?s
           = (case run fencedRe (?s, None) of
                (r, c) # _ \<Rightarrow> Some (take (length ?s - length r) ?s, c)
              | [] \<Rightarrow> search fencedRe (tl ?s))"
    by (metis search.simps(2))
  then have "search fencedRe ?s = Some (take (length ?s - length post) ?s, Some (LBRACE # mid @ [RBRACE]))"
    by (simp only: r list.case prod.case)
  moreover have "take (length ?s - length post) ?s = ?blk"
    by simp
  ultimately show ?thesis by (simp only:)
qed

lemma prefix_drop: "prefix p s \<Longrightarrow> s = p @ drop (length p) s"
  by (auto simp: prefix_def)

lemma js_lengths: "length (js ''```'') = 3" "length (js ''json'') = 4"
  by (simp_all add: js_def)

lemma fencedObj_sound:
  assumes "(rest, g) \<in> set (fencedObj u)"
  shows "\<exists>mid ws2. (\<forall>x\<in>set ws2. isSpace x)
           \<and> u = LBRACE # mid @ RBRACE # ws2 @ js ''```'' @ rest
           \<and> g = Some (LBRACE # mid @ [RBRACE])"
proof (cases u)
  case Nil
  with assms show ?thesis by (simp add: fencedObj_def)
next
  case (Cons x v)
  with assms have x: "x = LBRACE" by (auto simp: fencedObj_def split: if_splits)
  from assms Cons x obtain r where r: "r \<in> set (closers v)"
    and fe: "fenceEnd (tl r) = Some rest"
    and g: "g = Some (take (length u - length (tl r)) u)"
    by (auto simp: fencedObj_def split: option.splits)
  from r have "suffix r v" "prefix [RBRACE] r" by (simp_all add: closers_def)
  then obtain mid r' where v: "v = mid @ RBRACE # r'" and r': "r = RBRACE # r'"
    by (auto simp: suffix_def prefix_def)
  from fe r' have "prefix (js ''```'') (dropWhile isSpace r')"
    and "rest = drop 3 (dropWhile isSpace r')"
    by (auto simp: fenceEnd_def Let_def split: if_splits)
  then have dw: "dropWhile isSpace r' = js ''```'' @ rest"
    using prefix_drop [of "js ''```''" "dropWhile isSpace r'"] by (simp add: js_lengths)
  have "r' = takeWhile isSpace r' @ dropWhile isSpace r'" by simp
  with dw have r'_eq: "r' = takeWhile isSpace r' @ js ''```'' @ rest" by simp
  have sp: "\<forall>x\<in>set (takeWhile isSpace r'). isSpace x" by (auto dest: set_takeWhileD)
  have "u = LBRACE # mid @ RBRACE # takeWhile isSpace r' @ js ''```'' @ rest"
    using Cons x v r'_eq by simp
  moreover have "g = Some (LBRACE # mid @ [RBRACE])"
    using g Cons x v r' by simp
  ultimately show ?thesis using sp by blast
qed

lemma fencedAt_sound:
  assumes "(rest, g) \<in> set (fencedAt s)"
  shows "\<exists>tag ws1 mid ws2. (tag = [] \<or> tag = js ''json'')
           \<and> (\<forall>x\<in>set ws1. isSpace x) \<and> (\<forall>x\<in>set ws2. isSpace x)
           \<and> s = js ''```'' @ tag @ ws1 @ LBRACE # mid @ RBRACE # ws2 @ js ''```'' @ rest
           \<and> g = Some (LBRACE # mid @ [RBRACE])"
proof -
  from assms have pre: "prefix (js ''```'') s"
    by (auto simp: fencedAt_def split: if_splits)
  then have s: "s = js ''```'' @ drop 3 s"
    using prefix_drop [of "js ''```''" s] by (simp add: js_lengths)
  from assms pre consider
      (tagged) "prefix (js ''json'') (drop 3 s)" "(rest, g) \<in> set (fencedObj (dropWhile isSpace (drop 7 s)))"
    | (plain) "(rest, g) \<in> set (fencedObj (dropWhile isSpace (drop 3 s)))"
    by (auto simp: fencedAt_def split: if_splits)
  then show ?thesis
  proof cases
    case tagged
    let ?t = "drop 7 s"
    from tagged(1) have "drop 3 s = js ''json'' @ drop 4 (drop 3 s)"
      using prefix_drop [of "js ''json''" "drop 3 s"] by (simp add: js_lengths)
    then have t: "drop 3 s = js ''json'' @ ?t" by simp
    from fencedObj_sound [OF tagged(2)] obtain mid ws2 where
      ws2: "\<forall>x\<in>set ws2. isSpace x"
      and u: "dropWhile isSpace ?t = LBRACE # mid @ RBRACE # ws2 @ js ''```'' @ rest"
      and g: "g = Some (LBRACE # mid @ [RBRACE])" by blast
    have "?t = takeWhile isSpace ?t @ dropWhile isSpace ?t" by simp
    with u have "?t = takeWhile isSpace ?t @ LBRACE # mid @ RBRACE # ws2 @ js ''```'' @ rest"
      by simp
    with s t have "s = js ''```'' @ js ''json'' @ takeWhile isSpace ?t
                       @ LBRACE # mid @ RBRACE # ws2 @ js ''```'' @ rest"
      by simp
    moreover have "\<forall>x\<in>set (takeWhile isSpace ?t). isSpace x" by (auto dest: set_takeWhileD)
    ultimately show ?thesis using ws2 g by blast
  next
    case plain
    let ?t = "drop 3 s"
    from fencedObj_sound [OF plain] obtain mid ws2 where
      ws2: "\<forall>x\<in>set ws2. isSpace x"
      and u: "dropWhile isSpace ?t = LBRACE # mid @ RBRACE # ws2 @ js ''```'' @ rest"
      and g: "g = Some (LBRACE # mid @ [RBRACE])" by blast
    have "?t = takeWhile isSpace ?t @ dropWhile isSpace ?t" by simp
    with u have "?t = takeWhile isSpace ?t @ LBRACE # mid @ RBRACE # ws2 @ js ''```'' @ rest"
      by simp
    with s have "s = js ''```'' @ [] @ takeWhile isSpace ?t
                       @ LBRACE # mid @ RBRACE # ws2 @ js ''```'' @ rest"
      by simp
    moreover have "\<forall>x\<in>set (takeWhile isSpace ?t). isSpace x" by (auto dest: set_takeWhileD)
    ultimately show ?thesis using ws2 g by blast
  qed
qed

lemma search_hd:
  assumes "search re s = Some (m, g)"
  shows "\<exists>pre s' r rs. s = pre @ s' \<and> run re (s', None) = (r, g) # rs
           \<and> m = take (length s' - length r) s'"
  using assms
proof (induction s)
  case Nil
  then obtain r rs where "run re ([], None) = (r, g) # rs" "m = []"
    by (auto split: list.splits)
  then show ?case by auto
next
  case (Cons x t)
  show ?case
  proof (cases "run re (x # t, None)")
    case Nil
    with Cons.prems have "search re t = Some (m, g)" by simp
    from Cons.IH [OF this] obtain pre s' r rs where
      "t = pre @ s'" "run re (s', None) = (r, g) # rs" "m = take (length s' - length r) s'"
      by blast
    then have "x # t = (x # pre) @ s'" by simp
    with \<open>run re (s', None) = (r, g) # rs\<close> \<open>m = take (length s' - length r) s'\<close>
    show ?thesis by blast
  next
    case (Cons a rs)
    obtain r c where a: "a = (r, c)" by (cases a)
    with Cons Cons.prems have "m = take (length (x # t) - length r) (x # t)" "c = g"
      by simp_all
    with Cons a have "x # t = [] @ (x # t)" "run re (x # t, None) = (r, g) # rs"
      by simp_all
    with \<open>m = take (length (x # t) - length r) (x # t)\<close> show ?thesis by blast
  qed
qed

lemma search_fenced_sound:
  assumes "search fencedRe content = Some (m, g)"
  shows "\<exists>pre tag ws1 mid ws2 post.
           content = pre @ m @ post
           \<and> m = js ''```'' @ tag @ ws1 @ LBRACE # mid @ RBRACE # ws2 @ js ''```''
           \<and> (tag = [] \<or> tag = js ''json'')
           \<and> (\<forall>x\<in>set ws1. isSpace x) \<and> (\<forall>x\<in>set ws2. isSpace x)
           \<and> g = Some (LBRACE # mid @ [RBRACE])"
proof -
  from search_hd [OF assms] obtain pre s' r rs where
    c: "content = pre @ s'" and run: "run fencedRe (s', None) = (r, g) # rs"
    and m: "m = take (length s' - length r) s'" by blast
  from run have "(r, g) \<in> set (fencedAt s')" by (simp add: run_fencedRe)
  from fencedAt_sound [OF this] obtain tag ws1 mid ws2 where
    tag: "tag = [] \<or> tag = js ''json''"
    and ws: "\<forall>x\<in>set ws1. isSpace x" "\<forall>x\<in>set ws2. isSpace x"
    and s': "s' = js ''```'' @ tag @ ws1 @ LBRACE # mid @ RBRACE # ws2 @ js ''```'' @ r"
    and g: "g = Some (LBRACE # mid @ [RBRACE])" by blast
  let ?blk = "js ''```'' @ tag @ ws1 @ LBRACE # mid @ RBRACE # ws2 @ js ''```''"
  have s'': "s' = ?blk @ r" using s' by simp
  have "m = ?blk" unfolding m by (subst (1 2) s'') simp
  moreover have "content = pre @ ?blk @ r" using c s'' by simp
  ultimately show ?thesis using tag ws g by blast
qed

lemma search_none:
  assumes "\<And>s'. suffix s' s \<Longrightarrow> run re (s', None) = []"
  shows "search re s = None"
  using assms
proof (induction s)
  case Nil
  then show ?case by simp
next
  case (Cons x t)
  have "run re (x # t, None) = []" by (rule Cons.prems) simp
  moreover have "search re t = None"
    by (rule Cons.IH) (simp add: Cons.prems suffix_Cons)
  ultimately show ?case by simp
qed

lemma fencedObj_needs_brace: "LBRACE \<notin> set u \<Longrightarrow> fencedObj u = []"
  by (cases u) (auto simp: fencedObj_def)

lemma fencedAt_needs_brace:
  assumes "LBRACE \<notin> set s"
  shows "fencedAt s = []"
proof -
  have "LBRACE \<notin> set (dropWhile isSpace (drop k s))" for k
    using assms by (meson in_set_dropD set_dropWhileD)
  then show ?thesis by (simp add: fencedAt_def fencedObj_needs_brace)
qed

lemma extractJson_no_brace:
  assumes "LBRACE \<notin> set content"
  shows "extractJson content = content"
proof -
  have "search fencedRe content = None"
  proof (rule search_none)
    fix s' assume "suffix s' content"
    then have "LBRACE \<notin> set s'" using assms set_mono_suffix by blast
    then show "run fencedRe (s', None) = []" by (simp add: run_fencedRe fencedAt_needs_brace)
  qed
  moreover have dw: "dropWhile (\<lambda>c. c \<noteq> LBRACE) content = []"
    using assms by (auto simp: dropWhile_eq_Nil_conv)
  have "braceSpan content = None" unfolding braceSpan_def dw by simp
  ultimately show ?thesis by (simp add: extractJson_def search_objRe)
qed


section \<open>The parser\<close>

lemma parse_elements_array:
  "parse_elements n acc s = Some (v, r) \<Longrightarrow> \<exists>xs. v = JArr xs"
proof (induction n arbitrary: acc s)
  case 0
  then show ?case by simp
next
  case (Suc n)
  then show ?case
    by (auto simp del: parse_value.simps split: option.splits list.splits if_splits)
qed

lemma parse_value_object:
  assumes "parse_value n s = Some (JObj kvs, r)"
  shows "\<exists>t. s = LBRACE # t"
proof (cases n)
  case 0
  with assms show ?thesis by simp
next
  case (Suc m)
  show ?thesis
  proof (cases s)
    case Nil
    with assms Suc show ?thesis by simp
  next
    case (Cons c t)
    show ?thesis
    proof (cases "c = 0x7B")
      case True
      with Cons show ?thesis by (simp add: LBRACE_def)
    next
      case False
      with assms Suc Cons show ?thesis
        by (auto simp del: parse_elements.simps parse_members.simps
                 split: if_splits list.splits dest: parse_elements_array)
    qed
  qed
qed

lemma JSON_parse_object:
  assumes "JSON_parse text = Inr (JObj kvs)"
  shows "LBRACE \<in> set text"
proof -
  from assms obtain r where "parse_value (Suc (length text)) (skipWs text) = Some (JObj kvs, r)"
    by (auto simp: JSON_parse_def simp del: parse_value.simps split: option.splits if_splits)
  then obtain t where "skipWs text = LBRACE # t" using parse_value_object by blast
  then have "LBRACE \<in> set (skipWs text)" by simp
  then show ?thesis unfolding skipWs_def by (rule set_dropWhileD)
qed

lemma JSON_parse_empty: "JSON_parse [] = Inl (SyntaxError [])"
  by (simp add: JSON_parse_def skipWs_def)


section \<open>The evaluator and its extractor\<close>

lemma evaluateInnovation_resolved:
  assumes "getHuggingFaceToken e = Inr tok" "p (buildRequest e tok idea) = Resolved r"
  shows "evaluateInnovation w e p idea =
           ((case handleResponse r of Inl err \<Rightarrow> EvaluationFailure (message w err) | Inr v \<Rightarrow> v),
            [buildRequest e tok idea])"
  using assms by (simp add: evaluateInnovation_def tryEvaluate_def Let_def split: sum.splits)

lemma sampleEnv_token: "getHuggingFaceToken sampleEnv = Inr (js ''hf_secret'')"
  by (simp add: getHuggingFaceToken_def sampleEnv_def js_def)

lemma evaluateInnovation_sample:
  "fst (evaluateInnovation w sampleEnv (always (Resolved r)) idea) =
     (case handleResponse r of Inl err \<Rightarrow> EvaluationFailure (message w err) | Inr v \<Rightarrow> v)"
  using evaluateInnovation_resolved [OF sampleEnv_token, of "always (Resolved r)" idea r w]
  by (simp add: always_def)


text \<open>
  Claim C1, as amended. The strategies are tried in order and the first match wins. When
  the fenced pattern matches, the match is a fence, an optional tag \<open>json\<close>, white space,
  a span from \<open>{\<close> to \<open>}\<close>, white space and a fence, and the span is taken. Otherwise,
  when the text has a \<open>}\<close> after its first \<open>{\<close>, the span from the first \<open>{\<close> to the
  last \<open>}\<close> is taken. Otherwise the text is passed unchanged.
\<close>

theorem extraction_tries_fence_then_braces_then_text:
  "(\<forall>m g. search fencedRe content = Some (m, g) \<longrightarrow>
      (\<exists>pre tag ws1 mid ws2 post.
         content = pre @ m @ post
         \<and> m = js ''```'' @ tag @ ws1 @ LBRACE # mid @ RBRACE # ws2 @ js ''```''
         \<and> (tag = [] \<or> tag = js ''json'')
         \<and> (\<forall>x\<in>set ws1. isSpace x) \<and> (\<forall>x\<in>set ws2. isSpace x)
         \<and> g = Some (LBRACE # mid @ [RBRACE])
         \<and> extractJson content = LBRACE # mid @ [RBRACE]))
   \<and> (search fencedRe content = None \<longrightarrow>
        extractJson content = (case braceSpan content of Some t \<Rightarrow> t | None \<Rightarrow> content))"
proof (intro conjI allI impI)
  fix m g assume h: "search fencedRe content = Some (m, g)"
  from search_fenced_sound [OF h] obtain pre tag ws1 mid ws2 post where
    *: "content = pre @ m @ post"
       "m = js ''```'' @ tag @ ws1 @ LBRACE # mid @ RBRACE # ws2 @ js ''```''"
       "tag = [] \<or> tag = js ''json''"
       "\<forall>x\<in>set ws1. isSpace x" "\<forall>x\<in>set ws2. isSpace x"
       "g = Some (LBRACE # mid @ [RBRACE])"
    by blast
  from h *(6) have "extractJson content = LBRACE # mid @ [RBRACE]"
    by (simp add: extractJson_def)
  with * show "\<exists>pre tag ws1 mid ws2 post.
         content = pre @ m @ post
         \<and> m = js ''```'' @ tag @ ws1 @ LBRACE # mid @ RBRACE # ws2 @ js ''```''
         \<and> (tag = [] \<or> tag = js ''json'')
         \<and> (\<forall>x\<in>set ws1. isSpace x) \<and> (\<forall>x\<in>set ws2. isSpace x)
         \<and> g = Some (LBRACE # mid @ [RBRACE])
         \<and> extractJson content = LBRACE # mid @ [RBRACE]"
    by blast
next
  assume "search fencedRe content = None"
  then show "extractJson content = (case braceSpan content of Some t \<Rightarrow> t | None \<Rightarrow> content)"
    by (cases "braceSpan content") (simp_all add: extractJson_def search_objRe)
qed

theorem extraction_tries_fence_then_braces_then_text_witness:
  \<open>search fencedRe (js ''Sure: ```json {"a":1} ``` and {"b":2}'')
     = Some (js ''```json {"a":1} ```'', Some (js ''{"a":1}''))
   \<and> extractJson (js ''Sure: ```json {"a":1} ``` and {"b":2}'') = js ''{"a":1}''
   \<and> search fencedRe (js ''Sure: {"a":1} and {"b":2}.'') = None
   \<and> extractJson (js ''Sure: {"a":1} and {"b":2}.'') = js ''{"a":1} and {"b":2}''
   \<and> search fencedRe (js ''Sorry, no.'') = None
   \<and> extractJson (js ''Sorry, no.'') = js ''Sorry, no.''\<close>
proof -
  have a: \<open>search fencedRe (js ''Sure: ```json {"a":1} ``` and {"b":2}'')
     = Some (js ''```json {"a":1} ```'', Some (js ''{"a":1}''))\<close>
    by code_simp
  have b: \<open>search fencedRe (js ''Sure: {"a":1} and {"b":2}.'') = None\<close>
    by code_simp
  have b': \<open>braceSpan (js ''Sure: {"a":1} and {"b":2}.'') = Some (js ''{"a":1} and {"b":2}'')\<close>
    by code_simp
  have c: \<open>search fencedRe (js ''Sorry, no.'') = None\<close>
    by code_simp
  have c': \<open>braceSpan (js ''Sorry, no.'') = None\<close>
    by code_simp
  from extraction_tries_fence_then_braces_then_text [of \<open>js ''Sure: ```json {"a":1} ``` and {"b":2}''\<close>] a
  have \<open>extractJson (js ''Sure: ```json {"a":1} ``` and {"b":2}'') = js ''{"a":1}''\<close>
    by auto
  moreover from extraction_tries_fence_then_braces_then_text [of \<open>js ''Sure: {"a":1} and {"b":2}.''\<close>] b b'
  have \<open>extractJson (js ''Sure: {"a":1} and {"b":2}.'') = js ''{"a":1} and {"b":2}''\<close>
    by simp
  moreover from extraction_tries_fence_then_braces_then_text [of \<open>js ''Sorry, no.''\<close>] c c'
  have \<open>extractJson (js ''Sorry, no.'') = js ''Sorry, no.''\<close>
    by simp
  ultimately show ?thesis using a b c by simp
qed

text \<open>
  The claim as stated fails: a text with a \<open>{\<close> and no \<open>}\<close> after it is passed
  unchanged, prose included.
\<close>

theorem brace_without_closer_passes_full_text:
  \<open>LBRACE \<in> set (js ''Here: {"a": 1'')
   \<and> search fencedRe (js ''Here: {"a": 1'') = None
   \<and> extractJson (js ''Here: {"a": 1'') = js ''Here: {"a": 1''
   \<and> \<not> prefix [LBRACE] (extractJson (js ''Here: {"a": 1''))\<close>
  by code_simp

lemma extractJson_fenced_block:
  assumes "tag = [] \<or> tag = js ''json''"
    and "\<forall>x\<in>set ws1. isSpace x" and "\<forall>x\<in>set ws2. isSpace x"
    and "\<not> sublist (js ''```'') pre" and "\<not> sublist (js ''```'') post"
  shows "extractJson (pre @ js ''```'' @ tag @ ws1 @ LBRACE # mid @ RBRACE # ws2 @ js ''```'' @ post)
           = LBRACE # mid @ [RBRACE]"
  unfolding extractJson_def
  by (simp only: search_fenced_block [OF assms] option.case prod.case)

text \<open>
  Claim C2. For a completion text with one fenced block (nothing before or after it
  contains a fence) whose content is an object text that \<open>JSON.parse\<close> accepts, the
  extractor returns exactly what \<open>JSON.parse\<close> gives for the block, whatever the prose
  around it and whatever the fields and numbers of the object.
\<close>

theorem single_fenced_block_is_parsed:
  assumes "tag = [] \<or> tag = js ''json''"
    and "\<forall>x\<in>set ws1. isSpace x" and "\<forall>x\<in>set ws2. isSpace x"
    and "\<not> sublist (js ''```'') pre" and "\<not> sublist (js ''```'') post"
    and "JSON_parse (LBRACE # mid @ [RBRACE]) = Inr v"
  shows "extractJson (pre @ js ''```'' @ tag @ ws1 @ LBRACE # mid @ RBRACE # ws2 @ js ''```'' @ post)
           = LBRACE # mid @ [RBRACE]
       \<and> parseCompletion
           (JStr (pre @ js ''```'' @ tag @ ws1 @ LBRACE # mid @ RBRACE # ws2 @ js ''```'' @ post))
           = Inr v"
  using extractJson_fenced_block [OF assms(1-5), of mid] assms(6)
  by (simp add: parseCompletion_def)

theorem single_fenced_block_is_parsed_witness:
  \<open>parseCompletion
     (JStr (js ''Here is my evaluation:
'' @ js ''```'' @ js ''json'' @ js ''
'' @ LBRACE # js ''"overallEvaluation":{"overallScore":99,"note":"see ``` above"}'' @ RBRACE # js ''
'' @ js ''```'' @ js ''
I hope this helps!''))
   = Inr (JObj [(js ''overallEvaluation'',
                 JObj [(js ''overallScore'', JNum (js ''99'')),
                       (js ''note'', JStr (js ''see ``` above''))])])\<close>
proof -
  have t: \<open>js ''json'' = [] \<or> js ''json'' = js ''json''\<close> by simp
  have w: \<open>\<forall>x\<in>set (js ''
''). isSpace x\<close> by (simp add: js_def isSpace_def)
  have p1: \<open>\<not> sublist (js ''```'') (js ''Here is my evaluation:
'')\<close> by code_simp
  have p2: \<open>\<not> sublist (js ''```'') (js ''
I hope this helps!'')\<close> by code_simp
  have j: \<open>JSON_parse (LBRACE # js ''"overallEvaluation":{"overallScore":99,"note":"see ``` above"}'' @ [RBRACE])
      = Inr (JObj [(js ''overallEvaluation'',
                 JObj [(js ''overallScore'', JNum (js ''99'')),
                       (js ''note'', JStr (js ''see ``` above''))])])\<close>
    by code_simp
  from single_fenced_block_is_parsed [OF t w w p1 p2 j] show ?thesis by simp
qed

text \<open>
  Claim C3, as amended. A completion text without \<open>{\<close> is handed unchanged to
  \<open>JSON.parse\<close>: the extractor returns what \<open>JSON.parse\<close> returns for the whole text,
  a parse error when the text is not JSON, and never an object.
\<close>

theorem text_without_brace_reaches_parser_unchanged:
  assumes "LBRACE \<notin> set content"
  shows "extractJson content = content
       \<and> parseCompletion (JStr content) = JSON_parse content
       \<and> (\<forall>kvs. parseCompletion (JStr content) \<noteq> Inr (JObj kvs))"
proof -
  have "extractJson content = content" using assms by (rule extractJson_no_brace)
  moreover from this have "parseCompletion (JStr content) = JSON_parse content"
    by (simp add: parseCompletion_def)
  moreover have "JSON_parse content \<noteq> Inr (JObj kvs)" for kvs
    using assms JSON_parse_object by blast
  ultimately show ?thesis by simp
qed

theorem text_without_brace_reaches_parser_unchanged_witness:
  \<open>LBRACE \<notin> set (js ''Sure! Here's my analysis: not JSON at all.'')
   \<and> extractJson (js ''Sure! Here's my analysis: not JSON at all.'')
       = js ''Sure! Here's my analysis: not JSON at all.''
   \<and> parseCompletion (JStr (js ''Sure! Here's my analysis: not JSON at all.''))
       = Inl (SyntaxError (js ''Sure! Here's my analysis: not JSON at all.''))\<close>
proof -
  have h: \<open>LBRACE \<notin> set (js ''Sure! Here's my analysis: not JSON at all.'')\<close>
    by code_simp
  have p: \<open>JSON_parse (js ''Sure! Here's my analysis: not JSON at all.'')
       = Inl (SyntaxError (js ''Sure! Here's my analysis: not JSON at all.''))\<close>
    by code_simp
  from text_without_brace_reaches_parser_unchanged [OF h] h p show ?thesis by simp
qed

text \<open>
  The claim as stated fails: the text \<open>7\<close> has no \<open>{\<close>, and it is parsed and returned.
\<close>

theorem bare_number_is_returned:
  \<open>LBRACE \<notin> set (js ''7'')
   \<and> parseCompletion (JStr (js ''7'')) = Inr (JNum (js ''7''))
   \<and> fst (evaluateInnovation sampleEngine sampleEnv
          (always (Resolved (Response 200 (Inr (js ''{"choices":[{"message":{"content":"7"}}]}'')))))
          (js ''A subscription service for renting umbrellas in rainy cities.''))
       = JNum (js ''7'')\<close>
proof -
  have a: \<open>LBRACE \<notin> set (js ''7'')\<close> by code_simp
  have b: \<open>parseCompletion (JStr (js ''7'')) = Inr (JNum (js ''7''))\<close> by code_simp
  have c: \<open>handleResponse (Response 200 (Inr (js ''{"choices":[{"message":{"content":"7"}}]}'')))
      = Inr (JNum (js ''7''))\<close>
    by code_simp
  show ?thesis by (simp only: a b c evaluateInnovation_sample sum.case simp_thms)
qed

text \<open>
  Claim C10. There is a completion text with two fenced blocks, each holding a valid JSON
  object, for which the fenced pattern captures one span, from the opening brace of the
  first block to the closing brace of the second with the prose between them; the span is
  not valid JSON, and \<open>evaluateInnovation\<close> returns an EvaluationFailure.
\<close>

theorem two_fenced_blocks_capture_one_span:
  \<open>search fencedRe (js ''```json
{"a":1}
```
and
```json
{"b":2}
```'') = Some (js ''```json
{"a":1}
```
and
```json
{"b":2}
```'', Some (js ''{"a":1}
```
and
```json
{"b":2}''))
   \<and> JSON_parse (js ''{"a":1}'') = Inr (JObj [(js ''a'', JNum (js ''1''))])
   \<and> JSON_parse (js ''{"b":2}'') = Inr (JObj [(js ''b'', JNum (js ''2''))])
   \<and> parseCompletion (JStr (js ''```json
{"a":1}
```
and
```json
{"b":2}
```'')) = Inl (SyntaxError (js ''{"a":1}
```
and
```json
{"b":2}''))
   \<and> fst (evaluateInnovation sampleEngine sampleEnv
          (always (Resolved (Response 200 (Inr (js ''{"choices":[{"message":{"content":"```json {} ``` and ```json {} ```"}}]}'')))))
          (js ''A subscription service for renting umbrellas in rainy cities.''))
       = EvaluationFailure (js ''Unexpected token or end of JSON input'')\<close>
proof -
  have a: \<open>search fencedRe (js ''```json
{"a":1}
```
and
```json
{"b":2}
```'') = Some (js ''```json
{"a":1}
```
and
```json
{"b":2}
```'', Some (js ''{"a":1}
```
and
```json
{"b":2}''))\<close>
    by code_simp
  have b: \<open>JSON_parse (js ''{"a":1}'') = Inr (JObj [(js ''a'', JNum (js ''1''))])\<close>
    by code_simp
  have c: \<open>JSON_parse (js ''{"b":2}'') = Inr (JObj [(js ''b'', JNum (js ''2''))])\<close>
    by code_simp
  have d: \<open>parseCompletion (JStr (js ''```json
{"a":1}
```
and
```json
{"b":2}
```'')) = Inl (SyntaxError (js ''{"a":1}
```
and
```json
{"b":2}''))\<close>
    by code_simp
  have e: \<open>handleResponse (Response 200 (Inr (js ''{"choices":[{"message":{"content":"```json {} ``` and ```json {} ```"}}]}'')))
      = Inl (SyntaxError (js ''{} ``` and ```json {}''))\<close>
    by code_simp
  show ?thesis
    by (simp only: a b c d e evaluateInnovation_sample sum.case message.simps sampleEngine_def thrown.case simp_thms)
qed

lemma always_apply: "always f req = f"
  by (simp add: always_def)

lemma optional_Some: "optional f (Some v) = (if v = JNull then None else f v)"
  by (cases v) simp_all

lemma getProp_JNull: "getProp name JNull = None" "index0 JNull = None"
  by simp_all

lemma parseCompletion_empty: "parseCompletion (JStr []) = Inl (SyntaxError [])"
proof -
  have "extractJson [] = []" by (rule extractJson_no_brace) simp
  then show ?thesis by (simp add: parseCompletion_def JSON_parse_empty)
qed

text \<open>
  Claim C9, as amended. When the JSON of a successful response is not \<open>null\<close> and lacks
  \<open>choices\<close>, \<open>choices[0]\<close>, \<open>message\<close> or \<open>content\<close>, the completion content is the
  empty string, the extraction finds nothing, \<open>JSON.parse\<close> rejects the empty text and the
  call returns an EvaluationFailure with the message of that parse error, after one request.
\<close>

theorem missing_completion_gives_parse_failure:
  assumes "getHuggingFaceToken e = Inr tok"
    and "p (buildRequest e tok idea) = Resolved r"
    and "ok r" and "bodyText r = Inr text" and "JSON_parse text = Inr data"
    and "data \<noteq> JNull"
    and "getProp (js ''choices'') data = None
       \<or> (\<exists>c. getProp (js ''choices'') data = Some c \<and> index0 c = None)
       \<or> (\<exists>c c0. getProp (js ''choices'') data = Some c \<and> index0 c = Some c0
              \<and> getProp (js ''message'') c0 = None)
       \<or> (\<exists>c c0 m. getProp (js ''choices'') data = Some c \<and> index0 c = Some c0
              \<and> getProp (js ''message'') c0 = Some m \<and> getProp (js ''content'') m = None)"
  shows "completionContent data = Inr (JStr [])
       \<and> handleResponse r = Inl (SyntaxError [])
       \<and> evaluateInnovation w e p idea
           = (EvaluationFailure (w (SyntaxError [])), [buildRequest e tok idea])"
proof -
  have chain: "optional (getProp (js ''content''))
                 (optional (getProp (js ''message''))
                   (optional index0 (getProp (js ''choices'') data))) = None"
    using assms(7) by (auto simp: optional_Some)
  have cc: "completionContent data = Inr (JStr [])"
    using assms(6) chain by (cases data) (simp_all add: completionContent_def)
  have hr: "handleResponse r = Inl (SyntaxError [])"
    using assms(3-5) cc by (simp add: handleResponse_def parseCompletion_empty)
  show ?thesis
    using cc hr evaluateInnovation_resolved [where p = p and w = w, OF assms(1,2)] by simp
qed

theorem missing_completion_gives_parse_failure_witness:
  \<open>handleResponse (Response 200 (Inr (js ''{"choices":[]}''))) = Inl (SyntaxError [])
   \<and> fst (evaluateInnovation sampleEngine sampleEnv
          (always (Resolved (Response 200 (Inr (js ''{"choices":[]}'')))))
          (js ''A subscription service for renting umbrellas in rainy cities.''))
       = EvaluationFailure (js ''Unexpected token or end of JSON input'')\<close>
proof -
  let ?r = \<open>Response 200 (Inr (js ''{"choices":[]}''))\<close>
  let ?data = \<open>JObj [(js ''choices'', JArr [])]\<close>
  have 1: "always (Resolved ?r) (buildRequest sampleEnv (js ''hf_secret'')
             (js ''A subscription service for renting umbrellas in rainy cities.'')) = Resolved ?r"
    by (rule always_apply)
  have 2: "ok ?r" by (simp add: ok_def)
  have 3: \<open>bodyText ?r = Inr (js ''{"choices":[]}'')\<close> by simp
  have 4: \<open>JSON_parse (js ''{"choices":[]}'') = Inr ?data\<close> by code_simp
  have 5: "?data \<noteq> JNull" by simp
  have 6: "getProp (js ''choices'') ?data = None
       \<or> (\<exists>c. getProp (js ''choices'') ?data = Some c \<and> index0 c = None)
       \<or> (\<exists>c c0. getProp (js ''choices'') ?data = Some c \<and> index0 c = Some c0
              \<and> getProp (js ''message'') c0 = None)
       \<or> (\<exists>c c0 m. getProp (js ''choices'') ?data = Some c \<and> index0 c = Some c0
              \<and> getProp (js ''message'') c0 = Some m \<and> getProp (js ''content'') m = None)"
    by simp
  from missing_completion_gives_parse_failure
         [where p = "always (Resolved ?r)" and w = sampleEngine, OF sampleEnv_token 1 2 3 4 5 6]
  show ?thesis by (simp add: sampleEngine_def)
qed

text \<open>
  The claim as stated fails for the response \<open>null\<close>, which lacks \<open>choices\<close>: reading
  \<open>data.choices\<close> throws, and the failure carries the message of that error.
\<close>

theorem null_response_fails_at_property_access:
  \<open>JSON_parse (js ''null'') = Inr JNull
   \<and> getProp (js ''choices'') JNull = None
   \<and> handleResponse (Response 200 (Inr (js ''null''))) = Inl (TypeErrorNullProperty (js ''choices''))
   \<and> handleResponse (Response 200 (Inr (js ''null''))) \<noteq> Inl (SyntaxError [])
   \<and> fst (evaluateInnovation sampleEngine sampleEnv
          (always (Resolved (Response 200 (Inr (js ''null'')))))
          (js ''A subscription service for renting umbrellas in rainy cities.''))
       = EvaluationFailure (js ''Cannot read properties of null'')\<close>
proof -
  have a: \<open>JSON_parse (js ''null'') = Inr JNull\<close> by code_simp
  have b: \<open>handleResponse (Response 200 (Inr (js ''null''))) = Inl (TypeErrorNullProperty (js ''choices''))\<close>
    by (simp add: handleResponse_def ok_def a completionContent_def)
  show ?thesis
    by (simp add: a b evaluateInnovation_sample sampleEngine_def)
qed

text \<open>
  Claim C7, as amended. For every status outside 200 to 299 whose body can be read,
  \<open>evaluateInnovation\<close> sends one request and returns an EvaluationFailure with
  \<open>fallback: true\<close> whose message contains the decimal status.
\<close>

theorem error_status_gives_failure_naming_status:
  assumes "getHuggingFaceToken e = Inr tok"
    and "p (buildRequest e tok idea) = Resolved r"
    and "\<not> ok r" and "bodyText r = Inr errorText"
  shows "evaluateInnovation w e p idea
           = (EvaluationFailure
                (js ''Hugging Face Router error '' @ showNat (status r) @ js '': '' @ errorText),
              [buildRequest e tok idea])
       \<and> getProp (js ''fallback'') (fst (evaluateInnovation w e p idea)) = Some (JBool True)
       \<and> sublist (showNat (status r))
            (js ''Hugging Face Router error '' @ showNat (status r) @ js '': '' @ errorText)"
proof -
  have "handleResponse r
          = Inl (Error (js ''Hugging Face Router error '' @ showNat (status r) @ js '': '' @ errorText))"
    using assms(3,4) by (simp add: handleResponse_def)
  then have "evaluateInnovation w e p idea
           = (EvaluationFailure
                (js ''Hugging Face Router error '' @ showNat (status r) @ js '': '' @ errorText),
              [buildRequest e tok idea])"
    using evaluateInnovation_resolved [where p = p and w = w, OF assms(1,2)] by simp
  moreover have "getProp (js ''fallback'') (EvaluationFailure m) = Some (JBool True)" for m
    by (simp add: EvaluationFailure_def js_def)
  moreover have "sublist (showNat (status r))
            (js ''Hugging Face Router error '' @ showNat (status r) @ js '': '' @ errorText)"
    by (rule sublist_appendI)
  ultimately show ?thesis by simp
qed

theorem error_status_gives_failure_naming_status_witness:
  \<open>evaluateInnovation sampleEngine sampleEnv
      (always (Resolved (Response 503 (Inr (js ''Service Unavailable'')))))
      (js ''A subscription service for renting umbrellas in rainy cities.'')
    = (EvaluationFailure (js ''Hugging Face Router error 503: Service Unavailable''),
       [buildRequest sampleEnv (js ''hf_secret'')
          (js ''A subscription service for renting umbrellas in rainy cities.'')])
   \<and> sublist (js ''503'') (js ''Hugging Face Router error 503: Service Unavailable'')\<close>
proof -
  let ?r = \<open>Response 503 (Inr (js ''Service Unavailable''))\<close>
  have 1: "always (Resolved ?r) (buildRequest sampleEnv (js ''hf_secret'')
             (js ''A subscription service for renting umbrellas in rainy cities.'')) = Resolved ?r"
    by (rule always_apply)
  have 2: "\<not> ok ?r" by (simp add: ok_def)
  have 3: \<open>bodyText ?r = Inr (js ''Service Unavailable'')\<close> by simp
  have n: \<open>showNat 503 = js ''503''\<close> by code_simp
  have m: \<open>js ''Hugging Face Router error '' @ js ''503'' @ js '': '' @ js ''Service Unavailable''
           = js ''Hugging Face Router error 503: Service Unavailable''\<close>
    by (simp add: js_def)
  from error_status_gives_failure_naming_status
         [where p = "always (Resolved ?r)" and w = sampleEngine, OF sampleEnv_token 1 2 3]
  show ?thesis by (simp add: n m)
qed

text \<open>
  The claim as stated fails when reading the body of the error response rejects: the
  message is that of the rejection and does not mention the status.
\<close>

theorem unreadable_error_body_hides_status:
  \<open>fst (evaluateInnovation sampleEngine sampleEnv
          (always (Resolved (Response 503 (Inl (js ''terminated'')))))
          (js ''A subscription service for renting umbrellas in rainy cities.''))
     = EvaluationFailure (js ''terminated'')
   \<and> \<not> sublist (showNat 503) (js ''terminated'')\<close>
proof -
  have a: \<open>handleResponse (Response 503 (Inl (js ''terminated''))) = Inl (Rejection (js ''terminated''))\<close>
    by (simp add: handleResponse_def ok_def)
  have b: \<open>\<not> sublist (showNat 503) (js ''terminated'')\<close> by code_simp
  show ?thesis by (simp add: a b evaluateInnovation_sample)
qed

lemma evaluateInnovation_no_key:
  assumes "HUGGINGFACE_API_KEY e = None \<or> HUGGINGFACE_API_KEY e = Some []"
  shows "evaluateInnovation w e p idea
           = (EvaluationFailure (js ''Hugging Face API key is required. Please set HUGGINGFACE_API_KEY in your .env file.''), [])"
  using assms
  by (auto simp: evaluateInnovation_def tryEvaluate_def getHuggingFaceToken_def)

lemma evaluateInnovation_rejected:
  assumes "getHuggingFaceToken e = Inr tok" "p (buildRequest e tok idea) = Rejected m"
  shows "evaluateInnovation w e p idea = (EvaluationFailure m, [buildRequest e tok idea])"
  using assms by (simp add: evaluateInnovation_def tryEvaluate_def Let_def)

lemma evaluateInnovation_total:
  "(\<exists>v. fst (tryEvaluate e p idea) = Inr v \<and> fst (evaluateInnovation w e p idea) = v)
   \<or> (\<exists>err. fst (tryEvaluate e p idea) = Inl err
          \<and> fst (evaluateInnovation w e p idea) = EvaluationFailure (message w err))"
proof (cases "tryEvaluate e p idea")
  case (Pair res sent)
  then show ?thesis by (cases res) (simp_all add: evaluateInnovation_def)
qed

text \<open>
  Claim C6. \<open>evaluateInnovation\<close> returns a value for every input: what the \<open>try\<close> block
  returns, or, for whatever it throws, the object
  \<open>{error: 'Failed to generate evaluation', message, fallback: true}\<close>. A missing or empty
  API key, a rejected request, a status outside 200 to 299, a body that cannot be read, a
  response that is not JSON and a completion whose extracted text is not JSON each give
  that object.
\<close>

theorem every_failure_is_an_EvaluationFailure:
  "EvaluationFailure m
     = JObj [(js ''error'', JStr (js ''Failed to generate evaluation'')),
             (js ''message'', JStr m),
             (js ''fallback'', JBool True)]
   \<and> ((\<exists>v. fst (tryEvaluate e p idea) = Inr v \<and> fst (evaluateInnovation w e p idea) = v)
      \<or> (\<exists>err. fst (tryEvaluate e p idea) = Inl err
             \<and> fst (evaluateInnovation w e p idea) = EvaluationFailure (message w err)))
   \<and> (HUGGINGFACE_API_KEY e = None \<or> HUGGINGFACE_API_KEY e = Some [] \<longrightarrow>
        fst (evaluateInnovation w e p idea)
          = EvaluationFailure (js ''Hugging Face API key is required. Please set HUGGINGFACE_API_KEY in your .env file.''))
   \<and> (\<forall>tok. getHuggingFaceToken e = Inr tok \<longrightarrow>
        (\<forall>msg. p (buildRequest e tok idea) = Rejected msg \<longrightarrow>
           fst (evaluateInnovation w e p idea) = EvaluationFailure msg)
      \<and> (\<forall>r. p (buildRequest e tok idea) = Resolved r \<longrightarrow>
           (\<not> ok r \<longrightarrow> (\<exists>msg. fst (evaluateInnovation w e p idea) = EvaluationFailure msg))
         \<and> (\<forall>msg. bodyText r = Inl msg \<longrightarrow>
              fst (evaluateInnovation w e p idea) = EvaluationFailure msg)
         \<and> (\<forall>text err. ok r \<and> bodyText r = Inr text \<and> JSON_parse text = Inl err \<longrightarrow>
              fst (evaluateInnovation w e p idea) = EvaluationFailure (message w err))
         \<and> (\<forall>text data c err.
               ok r \<and> bodyText r = Inr text \<and> JSON_parse text = Inr data
               \<and> completionContent data = Inr (JStr c) \<and> JSON_parse (extractJson c) = Inl err \<longrightarrow>
              fst (evaluateInnovation w e p idea) = EvaluationFailure (message w err))))"
proof -
  have s1: "EvaluationFailure m
     = JObj [(js ''error'', JStr (js ''Failed to generate evaluation'')),
             (js ''message'', JStr m),
             (js ''fallback'', JBool True)]"
    by (simp add: EvaluationFailure_def)
  note s2 = evaluateInnovation_total [of e p idea w]
  have s3: "fst (evaluateInnovation w e p idea)
          = EvaluationFailure (js ''Hugging Face API key is required. Please set HUGGINGFACE_API_KEY in your .env file.'')"
    if "HUGGINGFACE_API_KEY e = None \<or> HUGGINGFACE_API_KEY e = Some []"
    using that by (simp add: evaluateInnovation_no_key)
  have s4: "fst (evaluateInnovation w e p idea) = EvaluationFailure msg"
    if "getHuggingFaceToken e = Inr tok" "p (buildRequest e tok idea) = Rejected msg" for tok msg
    using that by (simp add: evaluateInnovation_rejected [where p = p])
  have res: "fst (evaluateInnovation w e p idea)
               = (case handleResponse r of Inl err \<Rightarrow> EvaluationFailure (message w err) | Inr v \<Rightarrow> v)"
    if "getHuggingFaceToken e = Inr tok" "p (buildRequest e tok idea) = Resolved r" for tok r
    using evaluateInnovation_resolved [where p = p and w = w, OF that] by simp
  have s5: "\<exists>msg. fst (evaluateInnovation w e p idea) = EvaluationFailure msg"
    if "getHuggingFaceToken e = Inr tok" "p (buildRequest e tok idea) = Resolved r" "\<not> ok r" for tok r
  proof -
    have "\<exists>err. handleResponse r = Inl err"
      using that(3) by (cases "bodyText r") (simp_all add: handleResponse_def)
    then show ?thesis using res [OF that(1,2)] by auto
  qed
  have s6: "fst (evaluateInnovation w e p idea) = EvaluationFailure msg"
    if "getHuggingFaceToken e = Inr tok" "p (buildRequest e tok idea) = Resolved r"
       "bodyText r = Inl msg" for tok r msg
  proof -
    have "handleResponse r = Inl (Rejection msg)"
      using that(3) by (simp add: handleResponse_def)
    then show ?thesis using res [OF that(1,2)] by simp
  qed
  have s7: "fst (evaluateInnovation w e p idea) = EvaluationFailure (message w err)"
    if "getHuggingFaceToken e = Inr tok" "p (buildRequest e tok idea) = Resolved r"
       "ok r \<and> bodyText r = Inr raw \<and> JSON_parse raw = Inl err" for tok r raw err
  proof -
    have "handleResponse r = Inl err"
      using that(3) by (simp add: handleResponse_def)
    then show ?thesis using res [OF that(1,2)] by simp
  qed
  have s8: "fst (evaluateInnovation w e p idea) = EvaluationFailure (message w err)"
    if "getHuggingFaceToken e = Inr tok" "p (buildRequest e tok idea) = Resolved r"
       "ok r \<and> bodyText r = Inr raw \<and> JSON_parse raw = Inr dat
        \<and> completionContent dat = Inr (JStr c) \<and> JSON_parse (extractJson c) = Inl err"
    for tok r raw dat c err
  proof -
    have "handleResponse r = Inl err"
      using that(3) by (simp add: handleResponse_def parseCompletion_def)
    then show ?thesis using res [OF that(1,2)] by simp
  qed
  show ?thesis
    apply (intro conjI allI impI)
           apply (rule s1)
          apply (rule s2)
         apply (erule s3)
        apply (erule (1) s4)
       apply (erule (2) s5)
      apply (erule (2) s6)
     apply (erule (2) s7)
    apply (erule (2) s8)
    done
qed

theorem every_failure_is_an_EvaluationFailure_witness:
  \<open>fst (evaluateInnovation sampleEngine emptyEnv (always (Rejected []))
          (js ''A subscription service for renting umbrellas in rainy cities.''))
     = EvaluationFailure (js ''Hugging Face API key is required. Please set HUGGINGFACE_API_KEY in your .env file.'')
   \<and> fst (evaluateInnovation sampleEngine sampleEnv (always (Rejected (js ''fetch failed'')))
          (js ''A subscription service for renting umbrellas in rainy cities.''))
     = EvaluationFailure (js ''fetch failed'')
   \<and> (\<exists>msg. fst (evaluateInnovation sampleEngine sampleEnv
                 (always (Resolved (Response 503 (Inr (js ''Service Unavailable'')))))
                 (js ''A subscription service for renting umbrellas in rainy cities.''))
          = EvaluationFailure msg)
   \<and> fst (evaluateInnovation sampleEngine sampleEnv
          (always (Resolved (Response 200 (Inr (js ''<html>Bad Gateway</html>'')))))
          (js ''A subscription service for renting umbrellas in rainy cities.''))
     = EvaluationFailure (js ''Unexpected token or end of JSON input'')
   \<and> fst (evaluateInnovation sampleEngine sampleEnv
          (always (Resolved (Response 200 (Inr (js ''{"choices":[{"message":{"content":"Sure! Here's my analysis: not JSON at all."}}]}'')))))
          (js ''A subscription service for renting umbrellas in rainy cities.''))
     = EvaluationFailure (js ''Unexpected token or end of JSON input'')\<close>
proof -
  let ?idea = \<open>js ''A subscription service for renting umbrellas in rainy cities.''\<close>
  let ?req = "buildRequest sampleEnv (js ''hf_secret'') ?idea"
  have k: "HUGGINGFACE_API_KEY emptyEnv = None" by (simp add: emptyEnv_def)
  have a: "fst (evaluateInnovation sampleEngine emptyEnv (always (Rejected [])) ?idea)
     = EvaluationFailure (js ''Hugging Face API key is required. Please set HUGGINGFACE_API_KEY in your .env file.'')"
    using every_failure_is_an_EvaluationFailure
            [of "[]" emptyEnv "always (Rejected [])" ?idea sampleEngine] k
    by simp
  have b: "fst (evaluateInnovation sampleEngine sampleEnv (always (Rejected (js ''fetch failed''))) ?idea)
     = EvaluationFailure (js ''fetch failed'')"
    using every_failure_is_an_EvaluationFailure
            [of "[]" sampleEnv "always (Rejected (js ''fetch failed''))" ?idea sampleEngine]
          sampleEnv_token
    by (simp add: always_apply)
  let ?r503 = \<open>Response 503 (Inr (js ''Service Unavailable''))\<close>
  have "\<not> ok ?r503" by (simp add: ok_def)
  then have c: "\<exists>msg. fst (evaluateInnovation sampleEngine sampleEnv (always (Resolved ?r503)) ?idea)
                  = EvaluationFailure msg"
    using every_failure_is_an_EvaluationFailure
            [of "[]" sampleEnv "always (Resolved ?r503)" ?idea sampleEngine]
          sampleEnv_token
    by (simp add: always_apply)
  let ?rbad = \<open>Response 200 (Inr (js ''<html>Bad Gateway</html>''))\<close>
  have d0: \<open>JSON_parse (js ''<html>Bad Gateway</html>'') = Inl (SyntaxError (js ''<html>Bad Gateway</html>''))\<close>
    by code_simp
  have "ok ?rbad" by (simp add: ok_def)
  then have d: "fst (evaluateInnovation sampleEngine sampleEnv (always (Resolved ?rbad)) ?idea)
     = EvaluationFailure (js ''Unexpected token or end of JSON input'')"
    using every_failure_is_an_EvaluationFailure
            [of "[]" sampleEnv "always (Resolved ?rbad)" ?idea sampleEngine]
          sampleEnv_token d0
    by (simp add: always_apply sampleEngine_def)
  let ?body = \<open>js ''{"choices":[{"message":{"content":"Sure! Here's my analysis: not JSON at all."}}]}''\<close>
  let ?c = \<open>js ''Sure! Here's my analysis: not JSON at all.''\<close>
  let ?data = "JObj [(js ''choices'', JArr [JObj [(js ''message'', JObj [(js ''content'', JStr ?c)])]])]"
  let ?rprose = "Response 200 (Inr ?body)"
  have e0: "JSON_parse ?body = Inr ?data" by code_simp
  have e1: "completionContent ?data = Inr (JStr ?c)" by code_simp
  have e2: "JSON_parse (extractJson ?c) = Inl (SyntaxError ?c)" by code_simp
  have "ok ?rprose" by (simp add: ok_def)
  then have e: "fst (evaluateInnovation sampleEngine sampleEnv (always (Resolved ?rprose)) ?idea)
     = EvaluationFailure (js ''Unexpected token or end of JSON input'')"
    using every_failure_is_an_EvaluationFailure
            [of "[]" sampleEnv "always (Resolved ?rprose)" ?idea sampleEngine]
          sampleEnv_token e0 e1 e2
    by (simp add: always_apply sampleEngine_def)
  show ?thesis using a b c d e by blast
qed

text \<open>
  The route: a blank description is answered with status 400 and nothing is sent to the
  provider; any other description is answered with status 200 and whatever
  \<open>evaluateInnovation\<close> returned.
\<close>

lemma evaluateRoute_blank:
  assumes "b \<noteq> JNull" "getProp (js ''ideaDescription'') b = Some (JStr ideaDescription)"
    and "trim ideaDescription = []"
  shows "evaluateRoute w e p (Some b)
           = (\<lparr> code = 400, payload = JObj [(js ''error'', JStr (js ''Idea description is required''))] \<rparr>, [])"
  using assms by (cases b) (simp_all add: evaluateRoute_def Let_def)

lemma evaluateRoute_evaluates:
  assumes "b \<noteq> JNull" "getProp (js ''ideaDescription'') b = Some (JStr ideaDescription)"
    and "trim ideaDescription \<noteq> []"
  shows "evaluateRoute w e p (Some b)
           = (\<lparr> code = 200, payload = fst (evaluateInnovation w e p ideaDescription) \<rparr>,
              snd (evaluateInnovation w e p ideaDescription))"
proof -
  have "ideaDescription \<noteq> []" using assms(3) by (auto simp: trim_def)
  then show ?thesis
    using assms by (cases b) (simp_all add: evaluateRoute_def Let_def split: prod.splits)
qed

text \<open>
  Claim C8. The route is documented to answer 500 when the evaluation fails. When the
  provider answers 503 the handler sends the EvaluationFailure with status 200.
\<close>

theorem route_sends_failure_with_status_200:
  \<open>fst (evaluateRoute sampleEngine sampleEnv
          (always (Resolved (Response 503 (Inr (js ''Service Unavailable'')))))
          (Some (JObj [(js ''ideaDescription'',
                        JStr (js ''A subscription service for renting umbrellas in rainy cities.''))])))
     = \<lparr> code = 200,
         payload = EvaluationFailure (js ''Hugging Face Router error 503: Service Unavailable'') \<rparr>\<close>
proof -
  let ?idea = \<open>js ''A subscription service for renting umbrellas in rainy cities.''\<close>
  let ?b = "JObj [(js ''ideaDescription'', JStr ?idea)]"
  have 1: "?b \<noteq> JNull" by simp
  have 2: "getProp (js ''ideaDescription'') ?b = Some (JStr ?idea)" by simp
  have 3: "trim ?idea \<noteq> []" by code_simp
  have 4: \<open>handleResponse (Response 503 (Inr (js ''Service Unavailable'')))
            = Inl (Error (js ''Hugging Face Router error 503: Service Unavailable''))\<close>
    by code_simp
  show ?thesis
    by (simp only: evaluateRoute_evaluates [OF 1 2 3] evaluateInnovation_sample 4
                   fst_conv sum.case message.simps)
qed

section \<open>The prompt builder\<close>

lemma prompt_text_split:
  "EVALUATION_PROMPT = js (promptHead @ ''{ideaDescription}'' @ promptTail)"
  by (simp add: EVALUATION_PROMPT_def promptHead_def promptTail_def)

lemma unat_of_char: "unat (of_char c :: jschar) = of_char c"
proof -
  have lt: "(of_char c :: nat) < 256"
    by (metis of_char_mod_256 mod_less_divisor zero_less_numeral)
  have "(of_char c :: jschar) = of_nat (of_char c)" by (simp add: of_nat_of_char)
  moreover have "unat (of_nat (of_char c) :: jschar) = of_char c"
  proof -
    from lt have "(of_char c :: nat) < 65536" by linarith
    then show ?thesis by (simp add: unat_of_nat)
  qed
  ultimately show ?thesis by simp
qed

lemma of_char_eq_iff16: "(of_char a :: jschar) = of_char b \<longleftrightarrow> a = b"
proof
  assume "(of_char a :: jschar) = of_char b"
  then have "unat (of_char a :: jschar) = unat (of_char b :: jschar)" by simp
  then have "(of_char a :: nat) = of_char b" by (simp only: unat_of_char)
  then show "a = b" by simp
qed simp

lemma js_mem: "of_char c \<in> set (js s) \<longleftrightarrow> c \<in> set s"
  by (auto simp: js_def of_char_eq_iff16)

lemma head_no_brace: "LBRACE \<notin> set (js promptHead)"
proof -
  have "of_char CHR ''{'' \<notin> set (js promptHead)"
    unfolding js_mem by (simp add: promptHead_def)
  then show ?thesis by (simp add: LBRACE_def)
qed

lemma prompt_no_dollar: "0x24 \<notin> set (js promptHead)" "0x24 \<notin> set (js promptTail)"
proof -
  have "of_char CHR ''$'' \<notin> set (js promptHead)"
    unfolding js_mem by (simp add: promptHead_def)
  then show "0x24 \<notin> set (js promptHead)" by simp
  have "of_char CHR ''$'' \<notin> set (js promptTail)"
    unfolding js_mem by (simp add: promptTail_def)
  then show "0x24 \<notin> set (js promptTail)" by simp
qed

lemma js_append: "js (a @ b) = js a @ js b"
  by (simp add: js_def)

lemma prompt_split:
  "EVALUATION_PROMPT = js promptHead @ js ''{ideaDescription}'' @ js promptTail"
  by (simp only: prompt_text_split js_append)

lemma splitAt_first:
  assumes "x \<notin> set a"
  shows "splitAt (x # pat) (a @ (x # pat) @ b) = Some (a, b)"
  using assms by (induction a) auto

lemma placeholder_brace: "js ''{ideaDescription}'' = LBRACE # js ''ideaDescription}''"
  by (simp add: js_def LBRACE_def)

lemma buildPrompt_eq:
  "buildPrompt ideaDescription =
     js promptHead
     @ getSubstitution (js ''{ideaDescription}'') (js promptHead) (js promptTail) ideaDescription
     @ js promptTail"
proof -
  have "splitAt (js ''{ideaDescription}'') EVALUATION_PROMPT = Some (js promptHead, js promptTail)"
    unfolding prompt_split placeholder_brace using head_no_brace by (rule splitAt_first)
  then show ?thesis by (simp add: buildPrompt_def replace_def)
qed

lemma getSubstitution_plain:
  "0x24 \<notin> set repl \<Longrightarrow> getSubstitution matched preceding following repl = repl"
  by (induction matched preceding following repl rule: getSubstitution.induct) auto

lemma buildPrompt_plain:
  assumes "0x24 \<notin> set ideaDescription"
  shows "buildPrompt ideaDescription = js promptHead @ ideaDescription @ js promptTail"
  using assms by (simp add: buildPrompt_eq getSubstitution_plain)

lemma no_double:
  assumes "d \<notin> set a" "d \<notin> set b"
  shows "\<not> sublist [d, d] (a @ d # b)"
proof
  assume "sublist [d, d] (a @ d # b)"
  then obtain ps ss where "a @ d # b = ps @ [d, d] @ ss" by (auto simp: sublist_def)
  then have "count_list (a @ d # b) d = count_list (ps @ [d, d] @ ss) d" by simp
  moreover have "count_list (a @ d # b) d = 1" using assms by (simp add: count_list_0_iff)
  ultimately show False by simp
qed

lemma js_Cons: "js (c # s) = of_char c # js s"
  by (simp add: js_def)

text \<open>
  Claim C4. The user message is meant to hold the description verbatim. For the
  description \<open>Save $$ on parking\<close> the replacement reads \<open>$$\<close> as \<open>$\<close>: the message
  holds \<open>Save $ on parking\<close> and does not contain the description.
\<close>

theorem dollar_patterns_are_expanded:
  \<open>buildPrompt (js ''Save $$ on parking'')
     = js promptHead @ js ''Save $ on parking'' @ js promptTail
   \<and> \<not> sublist (js ''Save $$ on parking'') (buildPrompt (js ''Save $$ on parking''))\<close>
proof -
  have g: \<open>getSubstitution (js ''{ideaDescription}'') (js promptHead) (js promptTail)
              (js ''Save $$ on parking'') = js ''Save $ on parking''\<close>
    by (simp add: js_Cons js_def)
  have b: \<open>buildPrompt (js ''Save $$ on parking'')
     = js promptHead @ js ''Save $ on parking'' @ js promptTail\<close>
    by (simp only: buildPrompt_eq g)
  have d1: \<open>0x24 \<notin> set (js promptHead @ js ''Save '')\<close>
    using prompt_no_dollar(1) by (simp add: js_Cons js_def)
  have d2: \<open>0x24 \<notin> set (js '' on parking'' @ js promptTail)\<close>
    using prompt_no_dollar(2) by (simp add: js_Cons js_def)
  have n: \<open>\<not> sublist [0x24, 0x24] ((js promptHead @ js ''Save '') @ 0x24 # (js '' on parking'' @ js promptTail))\<close>
    using d1 d2 by (rule no_double)
  have e: \<open>(js promptHead @ js ''Save '') @ 0x24 # (js '' on parking'' @ js promptTail)
      = js promptHead @ js ''Save $ on parking'' @ js promptTail\<close>
    by (simp add: js_Cons js_def)
  have s: \<open>sublist [0x24, 0x24] (js ''Save $$ on parking'')\<close>
    by code_simp
  have \<open>\<not> sublist (js ''Save $$ on parking'')
             (js promptHead @ js ''Save $ on parking'' @ js promptTail)\<close>
  proof
    assume \<open>sublist (js ''Save $$ on parking'')
             (js promptHead @ js ''Save $ on parking'' @ js promptTail)\<close>
    with s have \<open>sublist [0x24, 0x24] (js promptHead @ js ''Save $ on parking'' @ js promptTail)\<close>
      by (rule sublist_order.order.trans)
    moreover have \<open>\<not> sublist [0x24, 0x24] (js promptHead @ js ''Save $ on parking'' @ js promptTail)\<close>
      using n unfolding e .
    ultimately show False by (rule notE [rotated])
  qed
  with b show ?thesis by simp
qed

lemma sublist_across:
  assumes "c \<notin> set p"
  shows "sublist p (a @ c # b) \<longleftrightarrow> sublist p a \<or> sublist p b"
proof
  assume "sublist p (a @ c # b)"
  then consider "sublist p a" | "sublist p (c # b)"
    | p1 p2 where "p = p1 @ p2" "suffix p1 a" "prefix p2 (c # b)"
    by (auto simp: sublist_append)
  then show "sublist p a \<or> sublist p b"
  proof cases
    case 1 then show ?thesis by simp
  next
    case 2
    then have "prefix p (c # b) \<or> sublist p b" by (simp add: sublist_Cons_right)
    moreover have "p = []" if "prefix p (c # b)"
      using that assms by (cases p) auto
    ultimately show ?thesis by auto
  next
    case 3
    have "p2 = []" using 3(1,3) assms by (cases p2) auto
    with 3 have "suffix p a" by simp
    then show ?thesis by (simp add: suffix_imp_sublist)
  qed
next
  assume "sublist p a \<or> sublist p b"
  then show "sublist p (a @ c # b)"
    by (auto simp: sublist_append sublist_Cons_right)
qed

lemma sublist_js:
  "sublist (js p) (js s) \<longleftrightarrow> sublist p s"
proof
  assume "sublist (js p) (js s)"
  then obtain xs' where "sublist xs' s" "js p = map of_char xs'"
    unfolding js_def using sublist_map_rightE by blast
  moreover have "inj (of_char :: char \<Rightarrow> jschar)"
    by (rule injI) (simp add: of_char_eq_iff16)
  ultimately show "sublist p s" by (simp add: js_def inj_map_eq_map)
next
  assume "sublist p s"
  then show "sublist (js p) (js s)" unfolding js_def by (rule map_mono_sublist)
qed

lemma tail_no_placeholder: "\<not> sublist (js ''{ideaDescription}'') (js promptTail)"
  unfolding sublist_js by (simp add: promptTail_def sublist_Cons_right)

lemma head_ends_with_newline: "js promptHead = js (butlast promptHead) @ [0x0A]"
proof -
  have "promptHead = butlast promptHead @ [CHR 0x0A]" by (simp add: promptHead_def)
  then have "js promptHead = js (butlast promptHead @ [CHR 0x0A])" by simp
  then show ?thesis by (simp add: js_append js_Cons js_def)
qed

lemma tail_starts_with_newline: "js promptTail = 0x0A # js (tl promptTail)"
proof -
  have "promptTail = CHR 0x0A # tl promptTail" by (simp add: promptTail_def)
  then have "js promptTail = js (CHR 0x0A # tl promptTail)" by simp
  then show ?thesis by (simp add: js_Cons)
qed

lemma buildPrompt_placeholder:
  assumes "0x24 \<notin> set ideaDescription"
  shows "sublist (js ''{ideaDescription}'') (buildPrompt ideaDescription)
           \<longleftrightarrow> sublist (js ''{ideaDescription}'') ideaDescription"
proof -
  let ?ph = "js ''{ideaDescription}''"
  have nl: "0x0A \<notin> set ?ph" by (simp add: js_Cons js_def)
  have h: "\<not> sublist ?ph (js (butlast promptHead))"
  proof
    assume "sublist ?ph (js (butlast promptHead))"
    then have "set ?ph \<subseteq> set (js (butlast promptHead))" by (rule set_mono_sublist)
    moreover have "LBRACE \<in> set ?ph" by (simp add: placeholder_brace)
    ultimately have "LBRACE \<in> set (js (butlast promptHead))" by blast
    then have "LBRACE \<in> set (js promptHead)" by (subst head_ends_with_newline) simp
    with head_no_brace show False by simp
  qed
  have t: "\<not> sublist ?ph (js (tl promptTail))"
  proof
    assume "sublist ?ph (js (tl promptTail))"
    then have "sublist ?ph (js promptTail)"
      by (subst tail_starts_with_newline) (simp add: sublist_Cons_right)
    with tail_no_placeholder show False by simp
  qed
  have "buildPrompt ideaDescription
          = js (butlast promptHead) @ 0x0A # (ideaDescription @ 0x0A # js (tl promptTail))"
    using buildPrompt_plain [OF assms] head_ends_with_newline tail_starts_with_newline by simp
  then show ?thesis
    using h t by (simp only: sublist_across [OF nl] simp_thms)
qed

section \<open>Parsing inverts serialisation\<close>



















declare parse_value.simps(2) [simp del] parse_elements.simps(2) [simp del] parse_members.simps(2) [simp del]













lemma need_pos: "0 < need v"
  by (cases v) simp_all









end
